theory Spec2Isabelle
  imports Main "HOL-Library.AList"
begin

section \<open>Strings\<close>

text \<open>
  Python strings are modelled as \<open>string\<close>: lists of characters with the code points 0 to
  255 (Latin-1). Case mapping and the character classes below are Python's on these code
  points.
\<close>

definition code :: "char \<Rightarrow> nat" where
  "code c = of_char c"

text \<open>The characters that \<^verbatim>\<open>str.lower()\<close> changes: \<^verbatim>\<open>A\<close> to \<^verbatim>\<open>Z\<close>, and the
  upper-case letters 192 to 222 of Latin-1, among which 215 (the multiplication sign) is no
  letter. Each has its lower-case form 32 code points higher.\<close>

definition is_upper :: "char \<Rightarrow> bool" where
  "is_upper c =
     ((65 \<le> code c \<and> code c \<le> 90) \<or> (192 \<le> code c \<and> code c \<le> 222 \<and> code c \<noteq> 215))"

definition lower_char :: "char \<Rightarrow> char" where
  "lower_char c = (if is_upper c then char_of (code c + 32) else c)"

text \<open>The lower-case letters with an upper-case form among the 256 code points: \<^verbatim>\<open>a\<close> to
  \<^verbatim>\<open>z\<close> and 224 to 254 except 247 (the division sign). The upper-case forms of 181, 223
  and 255 are not single characters below 256; \<open>upper_char\<close> leaves these three alone, and
  no range of the module's patterns holds one of them or its upper-case form.\<close>

definition is_lower :: "char \<Rightarrow> bool" where
  "is_lower c =
     ((97 \<le> code c \<and> code c \<le> 122) \<or> (224 \<le> code c \<and> code c \<le> 254 \<and> code c \<noteq> 247))"

definition upper_char :: "char \<Rightarrow> char" where
  "upper_char c = (if is_lower c then char_of (code c - 32) else c)"

text \<open>\<^verbatim>\<open>str.lower()\<close>\<close>

definition lower :: "string \<Rightarrow> string" where
  "lower s = map lower_char s"

text \<open>\<^verbatim>\<open>str.startswith(prefix)\<close>\<close>

definition startswith :: "string \<Rightarrow> string \<Rightarrow> bool" where
  "startswith s p = (take (length p) s = p)"

text \<open>\<^verbatim>\<open>str.split(sep)\<close> for a separator of one character: never empty, one more
  piece than there are separators, empty pieces kept.\<close>

fun split_on :: "char \<Rightarrow> string \<Rightarrow> string list" where
  "split_on sep [] = [[]]"
| "split_on sep (c # cs) =
     (if c = sep then [] # split_on sep cs
      else (case split_on sep cs of
              [] \<Rightarrow> [[c]]
            | t # ts \<Rightarrow> (c # t) # ts))"

text \<open>\<^verbatim>\<open>sep.join(parts)\<close>\<close>

fun join :: "string \<Rightarrow> string list \<Rightarrow> string" where
  "join sep [] = []"
| "join sep [x] = x"
| "join sep (x # y # ys) = x @ sep @ join sep (y # ys)"

section \<open>Values, sections, the configuration object\<close>

text \<open>
  A configuration value starts as a string and is replaced in place by a typed value:
  an integer, a boolean, a tuple of strings, the proxy dictionary or a
  \<^verbatim>\<open>string.Template\<close>. \<open>PNone\<close> is Python's \<^verbatim>\<open>None\<close>.
\<close>

datatype pyval =
    PNone
  | PStr string
  | PInt int
  | PBool bool
  | PTuple "string list"
  | PDict "(string \<times> string) list"
  | PTemplate pyval

text \<open>\<^verbatim>\<open>class DotDict(dict)\<close>: an insertion-ordered dictionary from keys to values.\<close>

type_synonym dotdict = "(string \<times> pyval) list"

text \<open>The parser object: \<^verbatim>\<open>_sections\<close> and \<^verbatim>\<open>_defaults\<close> (the DEFAULT section).\<close>

record config =
  sections :: "(string \<times> dotdict) list"
  defaults :: dotdict

datatype level = DEBUG | INFO | WARNING

text \<open>The log messages of the module, by what they report.\<close>

datatype message =
    InvalidProxyFormat
  | Fc2fanSkipped
  | InvalidCrawlers string
  | ImportFailedDirectRun string

text \<open>The configuration together with the records the module logger has received and the
  lines printed to the console.\<close>

record world = config +
  log :: "(level \<times> message) list"
  printed :: "message list"

datatype error =
    KeyError string
  | AttributeError
  | TypeError
  | ValueError
  | NoSectionError string
  | NoOptionError string string
  | InterpolationSyntaxError
  | InterpolationMissingOptionError string
  | InterpolationDepthError
  | ImportFailure string

text \<open>A statement runs in a world and either completes (\<open>None\<close>) or raises; the world it
  returns is the one at that moment, so writes made before a raise stay.\<close>

type_synonym stmt = "world \<Rightarrow> error option \<times> world"

definition then_run :: "stmt \<Rightarrow> stmt \<Rightarrow> stmt" where
  "then_run f g w = (case f w of (Some e, w') \<Rightarrow> (Some e, w') | (None, w') \<Rightarrow> g w')"

definition rbind :: "error + 'a \<Rightarrow> ('a \<Rightarrow> error + 'b) \<Rightarrow> error + 'b" where
  "rbind r f = (case r of Inl e \<Rightarrow> Inl e | Inr x \<Rightarrow> f x)"

subsection \<open>Attribute access\<close>

text \<open>
  \<^verbatim>\<open>Config.__getattr__\<close>, the hook Python calls for a name that is no ordinary
  attribute of the parser:
  \<^verbatim>\<open>if name not in self._sections: raise KeyError(name)\<close>,
  \<^verbatim>\<open>return self._sections.get(name)\<close>.
\<close>

definition Config_getattr :: "'a config_scheme \<Rightarrow> string \<Rightarrow> error + dotdict" where
  "Config_getattr c name =
     (case map_of (sections c) name of
        None \<Rightarrow> Inl (KeyError name)
      | Some d \<Rightarrow> Inr d)"

text \<open>\<^verbatim>\<open>DotDict.__getattr__ = dict.get\<close>: the value, or \<^verbatim>\<open>None\<close> for a missing key.\<close>

definition DotDict_getattr :: "dotdict \<Rightarrow> string \<Rightarrow> pyval" where
  "DotDict_getattr d k = (case map_of d k of None \<Rightarrow> PNone | Some v \<Rightarrow> v)"

text \<open>\<^verbatim>\<open>DotDict.__setattr__ = dict.__setitem__\<close>: an existing key keeps its place.\<close>

definition DotDict_setattr :: "dotdict \<Rightarrow> string \<Rightarrow> pyval \<Rightarrow> dotdict" where
  "DotDict_setattr d k v = AList.update k v d"

text \<open>
  Python looks a name up on the object and on its classes first and calls the class's
  \<^verbatim>\<open>__getattr__\<close> only for a name it does not find there. \<open>Config_attributes\<close> is the
  list of the names found on a \<^verbatim>\<open>Config\<close> object without the hook: the four methods
  the class defines in this module, the fields \<^verbatim>\<open>ConfigParser.__init__\<close> sets on the
  object, and what the class inherits from \<^verbatim>\<open>configparser.ConfigParser\<close> (Python 3.11)
  and \<^verbatim>\<open>object\<close>. \<open>DotDict_attributes\<close> is the same list for a \<^verbatim>\<open>DotDict\<close>: the
  three hooks the class defines and what it inherits from \<^verbatim>\<open>dict\<close> and \<^verbatim>\<open>object\<close>.
\<close>

definition Config_attributes :: "string list" where
  "Config_attributes =
     [''__init__'', ''__getattr__'', ''read'', ''validate'', ''_allow_no_value'',
      ''_comment_prefixes'', ''_converters'', ''_defaults'', ''_delimiters'', ''_dict'',
      ''_empty_lines_in_values'', ''_inline_comment_prefixes'', ''_interpolation'',
      ''_optcre'', ''_proxies'', ''_sections'', ''_strict'', ''default_section'',
      ''BOOLEAN_STATES'', ''NONSPACECRE'', ''OPTCRE'', ''OPTCRE_NV'', ''SECTCRE'',
      ''add_section'', ''clear'', ''converters'', ''defaults'', ''get'', ''getboolean'',
      ''getfloat'', ''getint'', ''has_option'', ''has_section'', ''items'', ''keys'',
      ''options'', ''optionxform'', ''pop'', ''popitem'', ''read_dict'', ''read_file'',
      ''read_string'', ''readfp'', ''remove_option'', ''remove_section'', ''sections'',
      ''set'', ''setdefault'', ''update'', ''values'', ''write'', ''_DEFAULT_INTERPOLATION'',
      ''_MutableMapping__marker'', ''_OPT_NV_TMPL'', ''_OPT_TMPL'', ''_SECT_TMPL'',
      ''_abc_impl'', ''_convert_to_boolean'', ''_get'', ''_get_conv'', ''_handle_error'',
      ''_join_multiline_values'', ''_read'', ''_read_defaults'', ''_unify_values'',
      ''_validate_value_types'', ''_write_section'', ''__abstractmethods__'', ''__class__'',
      ''__class_getitem__'', ''__contains__'', ''__delattr__'', ''__delitem__'', ''__dict__'',
      ''__dir__'', ''__doc__'', ''__eq__'', ''__format__'', ''__ge__'', ''__getattribute__'',
      ''__getitem__'', ''__getstate__'', ''__gt__'', ''__hash__'', ''__init_subclass__'',
      ''__iter__'', ''__le__'', ''__len__'', ''__lt__'', ''__module__'', ''__ne__'',
      ''__new__'', ''__reduce__'', ''__reduce_ex__'', ''__repr__'', ''__reversed__'',
      ''__setattr__'', ''__setitem__'', ''__sizeof__'', ''__slots__'', ''__str__'',
      ''__subclasshook__'', ''__weakref__'']"

definition DotDict_attributes :: "string list" where
  "DotDict_attributes =
     [''__getattr__'', ''__setattr__'', ''__delattr__'', ''clear'', ''copy'', ''fromkeys'',
      ''get'', ''items'', ''keys'', ''pop'', ''popitem'', ''setdefault'', ''update'',
      ''values'', ''__class__'', ''__class_getitem__'', ''__contains__'', ''__delitem__'',
      ''__dict__'', ''__dir__'', ''__doc__'', ''__eq__'', ''__format__'', ''__ge__'',
      ''__getattribute__'', ''__getitem__'', ''__getstate__'', ''__gt__'', ''__hash__'',
      ''__init__'', ''__init_subclass__'', ''__ior__'', ''__iter__'', ''__le__'', ''__len__'',
      ''__lt__'', ''__module__'', ''__ne__'', ''__new__'', ''__or__'', ''__reduce__'',
      ''__reduce_ex__'', ''__repr__'', ''__reversed__'', ''__ror__'', ''__setitem__'',
      ''__sizeof__'', ''__str__'', ''__subclasshook__'', ''__weakref__'']"

text \<open>The value of \<^verbatim>\<open>cfg.name\<close>: a member of the parser object itself (a method or a
  field, given by its name), or the dictionary of a section.\<close>

datatype parser_attribute =
    Member string
  | Section dotdict

definition Config_getattribute :: "'a config_scheme \<Rightarrow> string \<Rightarrow> error + parser_attribute" where
  "Config_getattribute c name =
     (if name \<in> set Config_attributes then Inr (Member name)
      else rbind (Config_getattr c name) (\<lambda>d. Inr (Section d)))"

text \<open>The value of \<^verbatim>\<open>d.name\<close> for a \<^verbatim>\<open>DotDict\<close>: an attribute of the dictionary object
  itself (such as the method \<^verbatim>\<open>items\<close>), or what the hook returns.\<close>

datatype dict_attribute =
    Own string
  | Value pyval

definition DotDict_getattribute :: "dotdict \<Rightarrow> string \<Rightarrow> dict_attribute" where
  "DotDict_getattribute d k =
     (if k \<in> set DotDict_attributes then Own k else Value (DotDict_getattr d k))"

text \<open>
  The expression \<^verbatim>\<open>cfg.Section.key\<close> for any two names. When the first name is a member
  of the parser, the second lookup is made on that member, an object of the library (a
  bound method, a string, a dictionary): what it gives is outside this module and is left
  open, as \<open>None\<close>.
\<close>

definition access ::
  "'a config_scheme \<Rightarrow> string \<Rightarrow> string \<Rightarrow> (error + dict_attribute) option" where
  "access c sec key =
     (case Config_getattribute c sec of
        Inl e \<Rightarrow> Some (Inl e)
      | Inr (Section d) \<Rightarrow> Some (Inr (DotDict_getattribute d key))
      | Inr (Member m) \<Rightarrow> None)"

text \<open>
  The two hooks one after the other: the value stored under \<open>key\<close> in the section \<open>sec\<close>,
  \<^verbatim>\<open>None\<close> for a key the section does not have, \<^verbatim>\<open>KeyError\<close> for a missing
  section. This is the expression \<^verbatim>\<open>cfg.Section.key\<close> whenever neither name is found
  by ordinary lookup, as is the case for every name the passes write.
\<close>

definition attr :: "'a config_scheme \<Rightarrow> string \<Rightarrow> string \<Rightarrow> error + pyval" where
  "attr c sec key = rbind (Config_getattr c sec) (\<lambda>d. Inr (DotDict_getattr d key))"

text \<open>The statements \<^verbatim>\<open>cfg.Section.key = v\<close> and \<^verbatim>\<open>cfg._sections[sec][key] = v\<close>:
  both raise \<^verbatim>\<open>KeyError(sec)\<close> for a missing section and otherwise store into the
  section's dictionary, which the parser shares.\<close>

definition assign :: "string \<Rightarrow> string \<Rightarrow> pyval \<Rightarrow> stmt" where
  "assign sec key v w =
     (case map_of (sections w) sec of
        None \<Rightarrow> (Some (KeyError sec), w)
      | Some d \<Rightarrow> (None, w\<lparr>sections := AList.update sec (DotDict_setattr d key v) (sections w)\<rparr>))"

text \<open>Evaluate an expression that may raise, then run the statement that uses its value.\<close>

definition evaluate :: "(world \<Rightarrow> error + 'a) \<Rightarrow> ('a \<Rightarrow> stmt) \<Rightarrow> stmt" where
  "evaluate ex k w = (case ex w of Inl e \<Rightarrow> (Some e, w) | Inr x \<Rightarrow> k x w)"

section \<open>Regular expressions\<close>

text \<open>
  The two patterns of the module are kept as syntax trees and matched by one matcher, so
  that each tree can be read against the pattern text. \<open>Lit\<close> is literal text, \<open>OneOf\<close> a
  bracketed class (or a lone \<^verbatim>\<open>\d\<close> or \<^verbatim>\<open>\S\<close>), \<open>Rep r m n\<close> the repetition
  \<^verbatim>\<open>r{m,n}\<close>, with \<open>None\<close> for no upper bound.
\<close>

datatype item =
    Ch char
  | Span char char
  | Digits
  | NonSpace

datatype regex =
    Lit string
  | OneOf "item list"
  | Cat regex regex
  | Alt regex regex
  | Rep regex nat "nat option"

definition opt :: "regex \<Rightarrow> regex" where
  "opt r = Rep r 0 (Some 1)"

definition many1 :: "regex \<Rightarrow> regex" where
  "many1 r = Rep r 1 None"

fun cats :: "regex list \<Rightarrow> regex" where
  "cats [] = Lit []"
| "cats [r] = r"
| "cats (r # rs) = Cat r (cats rs)"

text \<open>Whitespace as \<^verbatim>\<open>\s\<close> sees it in a \<^verbatim>\<open>str\<close> pattern: tab to carriage return,
  the four separators 28 to 31, the space, the next-line control 133 and the no-break
  space 160.\<close>

definition is_space :: "char \<Rightarrow> bool" where
  "is_space c =
     ((9 \<le> code c \<and> code c \<le> 13) \<or> (28 \<le> code c \<and> code c \<le> 32) \<or>
      code c = 133 \<or> code c = 160)"

definition is_digit :: "char \<Rightarrow> bool" where
  "is_digit c = (48 \<le> code c \<and> code c \<le> 57)"

definition in_range :: "char \<Rightarrow> char \<Rightarrow> char \<Rightarrow> bool" where
  "in_range a b c = (code a \<le> code c \<and> code c \<le> code b)"

text \<open>One character against one item of a class; \<open>ic\<close> is \<^verbatim>\<open>re.IGNORECASE\<close>, under which
  a character also matches through its lower-case or upper-case form.\<close>

fun item_match :: "bool \<Rightarrow> item \<Rightarrow> char \<Rightarrow> bool" where
  "item_match ic (Ch a) c = (c = a \<or> (ic \<and> lower_char c = lower_char a))"
| "item_match ic (Span a b) c =
     (in_range a b c \<or> (ic \<and> (in_range a b (lower_char c) \<or> in_range a b (upper_char c))))"
| "item_match ic Digits c = is_digit c"
| "item_match ic NonSpace c = (\<not> is_space c)"

text \<open>The strings left after \<open>k\<close> rounds of \<open>f\<close>, for every \<open>k\<close> from \<open>lo\<close> up to the
  \<open>n\<close> rounds allowed; \<open>front\<close> holds what is left after the rounds done so far.\<close>

fun reps :: "(string \<Rightarrow> string list) \<Rightarrow> nat \<Rightarrow> nat \<Rightarrow> string list \<Rightarrow> string list" where
  "reps f lo 0 front = (if lo = 0 then front else [])"
| "reps f lo (Suc n) front =
     (if lo = 0 then front else []) @
     (if front = [] then [] else reps f (lo - 1) n (remdups (concat (map f front))))"

text \<open>\<open>rmatch ic r s\<close>: every way \<open>r\<close> matches a prefix of \<open>s\<close>, as the list of what is left
  of \<open>s\<close>. An unbounded repetition needs at most \<open>length s\<close> rounds beyond its minimum,
  since a round that consumes nothing changes nothing.\<close>

primrec rmatch :: "bool \<Rightarrow> regex \<Rightarrow> string \<Rightarrow> string list" where
  "rmatch ic (Lit t) =
     (\<lambda>s. if length t \<le> length s \<and> list_all2 (\<lambda>a c. item_match ic (Ch a) c) t (take (length t) s)
          then [drop (length t) s] else [])"
| "rmatch ic (OneOf items) =
     (\<lambda>s. case s of [] \<Rightarrow> [] | c # cs \<Rightarrow> if list_ex (\<lambda>i. item_match ic i c) items then [cs] else [])"
| "rmatch ic (Cat a b) = (\<lambda>s. remdups (concat (map (rmatch ic b) (rmatch ic a s))))"
| "rmatch ic (Alt a b) = (\<lambda>s. remdups (rmatch ic a s @ rmatch ic b s))"
| "rmatch ic (Rep r lo hi) =
     (\<lambda>s. remdups (reps (rmatch ic r) lo (case hi of None \<Rightarrow> lo + length s | Some h \<Rightarrow> h) [s]))"

text \<open>\<^verbatim>\<open>re.match('^...$', s) is not None\<close>: the pattern matches from the start, and
  \<^verbatim>\<open>$\<close> holds at the end of the string or just before a newline that ends it.\<close>

definition re_match :: "bool \<Rightarrow> regex \<Rightarrow> string \<Rightarrow> bool" where
  "re_match ic r s = list_ex (\<lambda>rest. rest = [] \<or> rest = [CHR 0x0A]) (rmatch ic r s)"

text \<open>\<^verbatim>\<open>^(socks5|http)://([-.a-z\d]+):(\d+)$\<close>\<close>

definition proxy_pattern :: regex where
  "proxy_pattern = cats
     [Alt (Lit ''socks5'') (Lit ''http''), Lit ''://'',
      many1 (OneOf [Ch CHR ''-'', Ch CHR ''.'', Span CHR ''a'' CHR ''z'', Digits]),
      Lit '':'',
      many1 (OneOf [Digits])]"

text \<open>The classes \<^verbatim>\<open>[A-Z0-9]\<close>, \<^verbatim>\<open>[A-Z0-9-]\<close>, \<^verbatim>\<open>[A-Z]\<close> and the group
  \<^verbatim>\<open>\d{1,3}\<close> of the URL pattern.\<close>

definition alnum :: regex where
  "alnum = OneOf [Span CHR ''A'' CHR ''Z'', Span CHR ''0'' CHR ''9'']"

definition alnum_dash :: regex where
  "alnum_dash = OneOf [Span CHR ''A'' CHR ''Z'', Span CHR ''0'' CHR ''9'', Ch CHR ''-'']"

definition alpha :: regex where
  "alpha = OneOf [Span CHR ''A'' CHR ''Z'']"

definition octet :: regex where
  "octet = Rep (OneOf [Digits]) 1 (Some 3)"

text \<open>
  \<^verbatim>\<open>^(?:http)s?://\<close>
  \<^verbatim>\<open>(?:(?:[A-Z0-9](?:[A-Z0-9-]{0,61}[A-Z0-9])?\.)+(?:[A-Z]{2,6}\.?|[A-Z0-9-]{2,}\.?)|\<close>
  \<^verbatim>\<open>localhost|\<close>
  \<^verbatim>\<open>\d{1,3}\.\d{1,3}\.\d{1,3}\.\d{1,3})\<close>
  \<^verbatim>\<open>(?::\d+)?\<close>
  \<^verbatim>\<open>(?:/?|[/?]\S+)$\<close>
\<close>

definition url_pattern :: regex where
  "url_pattern = cats
     [Lit ''http'', opt (Lit ''s''), Lit ''://'',
      Alt (cats [many1 (cats [alnum, opt (cats [Rep alnum_dash 0 (Some 61), alnum]), Lit ''.'']),
                 Alt (cats [Rep alpha 2 (Some 6), opt (Lit ''.'')])
                     (cats [Rep alnum_dash 2 None, opt (Lit ''.'')])])
          (Alt (Lit ''localhost'')
               (cats [octet, Lit ''.'', octet, Lit ''.'', octet, Lit ''.'', octet])),
      opt (cats [Lit '':'', many1 (OneOf [Digits])]),
      Alt (opt (Lit ''/'')) (cats [OneOf [Ch CHR ''/'', Ch CHR ''?''], many1 (OneOf [NonSpace])])]"

text \<open>\<^verbatim>\<open>is_url(url)\<close>: the URL pattern, compiled with \<^verbatim>\<open>re.IGNORECASE\<close>.\<close>

definition is_url :: "string \<Rightarrow> bool" where
  "is_url url = re_match True url_pattern url"

section \<open>The parser's accessors\<close>

text \<open>
  \<^verbatim>\<open>Config\<close> inherits \<^verbatim>\<open>get\<close>, \<^verbatim>\<open>getint\<close>, \<^verbatim>\<open>getboolean\<close>, \<^verbatim>\<open>set\<close> and the
  mapping protocol from \<^verbatim>\<open>configparser.ConfigParser\<close>, built with its default
  \<^verbatim>\<open>BasicInterpolation\<close>. What follows is that library code, as far as the module calls it.
\<close>

text \<open>Methods of \<^verbatim>\<open>str\<close> called on a value: any other value has no such attribute.\<close>

definition str_lower :: "pyval \<Rightarrow> error + string" where
  "str_lower v = (case v of PStr s \<Rightarrow> Inr (lower s) | _ \<Rightarrow> Inl AttributeError)"

definition str_split :: "char \<Rightarrow> pyval \<Rightarrow> error + string list" where
  "str_split sep v = (case v of PStr s \<Rightarrow> Inr (split_on sep s) | _ \<Rightarrow> Inl AttributeError)"

text \<open>\<^verbatim>\<open>optionxform\<close>: option names are lower-cased.\<close>

definition optionxform :: "string \<Rightarrow> string" where
  "optionxform option = lower option"

definition default_section :: string where
  "default_section = ''DEFAULT''"

definition MAX_INTERPOLATION_DEPTH :: nat where
  "MAX_INTERPOLATION_DEPTH = 10"

text \<open>\<^verbatim>\<open>_unify_values\<close> (no \<^verbatim>\<open>vars\<close>): the section's dictionary chained before the
  defaults.\<close>

definition unify_values :: "'a config_scheme \<Rightarrow> string \<Rightarrow> error + (string \<Rightarrow> pyval option)" where
  "unify_values c section =
     (case map_of (sections c) section of
        Some d \<Rightarrow> Inr (\<lambda>k. case map_of d k of Some v \<Rightarrow> Some v | None \<Rightarrow> map_of (defaults c) k)
      | None \<Rightarrow>
          if section \<noteq> default_section then Inl (NoSectionError section)
          else Inr (map_of (defaults c)))"

text \<open>Truth value of a value, as \<^verbatim>\<open>while rest:\<close> and \<^verbatim>\<open>if value:\<close> take it.\<close>

fun truthy :: "pyval \<Rightarrow> bool" where
  "truthy PNone = False"
| "truthy (PStr s) = (s \<noteq> [])"
| "truthy (PInt n) = (n \<noteq> 0)"
| "truthy (PBool b) = b"
| "truthy (PTuple xs) = (xs \<noteq> [])"
| "truthy (PDict d) = (d \<noteq> [])"
| "truthy (PTemplate t) = True"

text \<open>\<^verbatim>\<open>"%" in v\<close>: substring test on a string, membership on a tuple, key membership on
  a dictionary, \<^verbatim>\<open>TypeError\<close> on a value that is not iterable.\<close>

fun contains_percent :: "pyval \<Rightarrow> error + bool" where
  "contains_percent (PStr s) = Inr (CHR ''%'' \<in> set s)"
| "contains_percent (PTuple xs) = Inr (''%'' \<in> set xs)"
| "contains_percent (PDict d) = Inr (''%'' \<in> set (map fst d))"
| "contains_percent v = Inl TypeError"

text \<open>\<^verbatim>\<open>_KEYCRE = re.compile(r"%\(([^)]+)\)s")\<close>, matched at the start of \<open>r\<close>: the name
  between the brackets and what follows the reference.\<close>

definition keycre_match :: "string \<Rightarrow> (string \<times> string) option" where
  "keycre_match r =
     (let body = drop 2 r;
          name = takeWhile (\<lambda>x. x \<noteq> CHR '')'') body;
          after = dropWhile (\<lambda>x. x \<noteq> CHR '')'') body
      in if take 2 r = ''%('' \<and> name \<noteq> [] \<and> take 2 after = '')s''
         then Some (name, drop 2 after) else None)"

lemma keycre_match_shorter:
  "keycre_match r = Some (name, rest2) \<Longrightarrow> length rest2 < length r"
proof -
  assume a: "keycre_match r = Some (name, rest2)"
  let ?body = "drop 2 r"
  have r2: "take 2 r = ''%(''"
    and rest2: "rest2 = drop 2 (dropWhile (\<lambda>x. x \<noteq> CHR '')'') ?body)"
    using a by (auto simp: keycre_match_def Let_def split: if_splits)
  have "length r \<ge> 2" using r2 by (cases r; cases "tl r"; auto)
  moreover have "length rest2 \<le> length ?body"
    unfolding rest2 using length_dropWhile_le[of "\<lambda>x. x \<noteq> CHR '')''" ?body] by simp
  ultimately show ?thesis by simp
qed

text \<open>
  \<^verbatim>\<open>BasicInterpolation._interpolate_some\<close> on a string \<open>rest\<close> at a depth within the
  limit; the result is what the call appends to \<^verbatim>\<open>accum\<close>. The nested call for a
  referenced value \<open>v\<close> holding a \<^verbatim>\<open>%\<close> checks the depth on entry and then scans
  \<open>v\<close>, which raises \<^verbatim>\<open>AttributeError\<close> at \<^verbatim>\<open>rest.find\<close> when \<open>v\<close> is no string.
\<close>

function interpolate_some :: "(string \<Rightarrow> pyval option) \<Rightarrow> string \<Rightarrow> nat \<Rightarrow> error + pyval list" where
  "interpolate_some m rest depth =
     (if rest = [] then Inr []
      else
        let lit = takeWhile (\<lambda>x. x \<noteq> CHR ''%'') rest;
            rest1 = dropWhile (\<lambda>x. x \<noteq> CHR ''%'') rest
        in if rest1 = [] then Inr [PStr rest]
           else if take 1 (drop 1 rest1) = ''%'' then
             (case interpolate_some m (drop 2 rest1) depth of
                Inl e \<Rightarrow> Inl e
              | Inr out \<Rightarrow> Inr (PStr lit # PStr ''%'' # out))
           else if take 1 (drop 1 rest1) = ''('' then
             (case keycre_match rest1 of
                None \<Rightarrow> Inl InterpolationSyntaxError
              | Some (name, rest2) \<Rightarrow>
                  (case m (optionxform name) of
                     None \<Rightarrow> Inl (InterpolationMissingOptionError (optionxform name))
                   | Some v \<Rightarrow>
                       (case contains_percent v of
                          Inl e \<Rightarrow> Inl e
                        | Inr has \<Rightarrow>
                            (case (if \<not> has then Inr [v]
                                   else if depth + 1 > MAX_INTERPOLATION_DEPTH
                                     then Inl InterpolationDepthError
                                   else (case v of
                                           PStr s \<Rightarrow> interpolate_some m s (depth + 1)
                                         | _ \<Rightarrow> Inl AttributeError)) of
                               Inl e \<Rightarrow> Inl e
                             | Inr vs \<Rightarrow>
                                 (case interpolate_some m rest2 depth of
                                    Inl e \<Rightarrow> Inl e
                                  | Inr out \<Rightarrow> Inr (PStr lit # vs @ out))))))
           else Inl InterpolationSyntaxError)"
  by pat_completeness auto
termination interpolate_some
proof (relation "measures [\<lambda>(m, rest, depth). MAX_INTERPOLATION_DEPTH + 1 - depth,
                           \<lambda>(m, rest, depth). length rest]", goal_cases)
  case 1
  show ?case by simp
next
  case (2 m rest depth lit rest1)
  then have "length rest1 \<le> length rest" "0 < length rest1"
    by (auto simp: length_dropWhile_le)
  then have "length (drop 2 rest1) < length rest" by (cases rest1) auto
  then show ?case by simp
next
  case (3 m rest depth lit rest1 x2 name rest2 v has s)
  then show ?case by auto
next
  case (4 m rest depth lit rest1 x2 name rest2)
  then have "length rest1 \<le> length rest" by (auto simp: length_dropWhile_le)
  moreover have "length rest2 < length rest1" using 4 keycre_match_shorter by auto
  ultimately show ?case by auto
qed

declare interpolate_some.simps [simp del]

text \<open>\<^verbatim>\<open>''.join(L)\<close>: \<^verbatim>\<open>TypeError\<close> when an item of \<open>L\<close> is no string.\<close>

fun join_pieces :: "pyval list \<Rightarrow> error + string" where
  "join_pieces [] = Inr []"
| "join_pieces (PStr s # ps) = rbind (join_pieces ps) (\<lambda>t. Inr (s @ t))"
| "join_pieces (v # ps) = Inl TypeError"

text \<open>\<^verbatim>\<open>BasicInterpolation.before_get\<close>: the first call of \<^verbatim>\<open>_interpolate_some\<close> is at
  depth 1; on a value that is no string its loop is skipped when the value is false and
  raises at \<^verbatim>\<open>rest.find\<close> otherwise.\<close>

definition before_get :: "(string \<Rightarrow> pyval option) \<Rightarrow> pyval \<Rightarrow> error + string" where
  "before_get m v =
     (case v of
        PStr s \<Rightarrow> rbind (interpolate_some m s 1) join_pieces
      | _ \<Rightarrow> if truthy v then Inl AttributeError else Inr [])"

text \<open>\<^verbatim>\<open>RawConfigParser.get(section, option)\<close>\<close>

definition get :: "'a config_scheme \<Rightarrow> string \<Rightarrow> string \<Rightarrow> error + pyval" where
  "get c section option =
     rbind (unify_values c section) (\<lambda>d.
       case d (optionxform option) of
         None \<Rightarrow> Inl (NoOptionError (optionxform option) section)
       | Some v \<Rightarrow>
           if v = PNone then Inr PNone
           else rbind (before_get d v) (\<lambda>s. Inr (PStr s)))"

text \<open>\<^verbatim>\<open>int(value)\<close> on a string: surrounding whitespace, an optional sign, decimal digits
  with single underscores between them. The whitespace it strips is tab to carriage
  return, the space, and the two Latin-1 spaces 133 and 160; the separators 28 to 31 are
  not stripped. The interpreter's limit on the number of digits is left out.\<close>

definition is_int_space :: "char \<Rightarrow> bool" where
  "is_int_space c =
     ((9 \<le> code c \<and> code c \<le> 13) \<or> code c = 32 \<or> code c = 133 \<or> code c = 160)"

definition strip :: "string \<Rightarrow> string" where
  "strip s = rev (dropWhile is_int_space (rev (dropWhile is_int_space s)))"

fun digit_groups :: "string \<Rightarrow> bool" where
  "digit_groups [] = False"
| "digit_groups [c] = is_digit c"
| "digit_groups (c # d # cs) =
     (is_digit c \<and> (if d = CHR ''_'' then digit_groups cs else digit_groups (d # cs)))"

definition decimal :: "string \<Rightarrow> int" where
  "decimal s = foldl (\<lambda>a c. 10 * a + (int (code c) - 48)) 0 (filter is_digit s)"

definition parse_int :: "string \<Rightarrow> int option" where
  "parse_int s =
     (let t = strip s;
          neg = (take 1 t = ''-'');
          u = (if take 1 t = ''-'' \<or> take 1 t = ''+'' then drop 1 t else t)
      in if digit_groups u then Some (if neg then - decimal u else decimal u) else None)"

definition py_int :: "pyval \<Rightarrow> error + int" where
  "py_int v =
     (case v of
        PStr s \<Rightarrow> (case parse_int s of None \<Rightarrow> Inl ValueError | Some n \<Rightarrow> Inr n)
      | PInt n \<Rightarrow> Inr n
      | PBool b \<Rightarrow> Inr (if b then 1 else 0)
      | _ \<Rightarrow> Inl TypeError)"

text \<open>\<^verbatim>\<open>getint(section, option)\<close> is \<^verbatim>\<open>int(self.get(section, option))\<close>.\<close>

definition getint :: "'a config_scheme \<Rightarrow> string \<Rightarrow> string \<Rightarrow> error + int" where
  "getint c section option = rbind (get c section option) py_int"

text \<open>\<^verbatim>\<open>BOOLEAN_STATES\<close> and \<^verbatim>\<open>_convert_to_boolean\<close>:
  \<^verbatim>\<open>if value.lower() not in self.BOOLEAN_STATES: raise ValueError\<close>,
  \<^verbatim>\<open>return self.BOOLEAN_STATES[value.lower()]\<close>.\<close>

definition BOOLEAN_STATES :: "(string \<times> bool) list" where
  "BOOLEAN_STATES =
     [(''1'', True), (''yes'', True), (''true'', True), (''on'', True),
      (''0'', False), (''no'', False), (''false'', False), (''off'', False)]"

definition convert_to_boolean :: "pyval \<Rightarrow> error + bool" where
  "convert_to_boolean v =
     rbind (str_lower v) (\<lambda>l.
       case map_of BOOLEAN_STATES l of None \<Rightarrow> Inl ValueError | Some b \<Rightarrow> Inr b)"

text \<open>\<^verbatim>\<open>getboolean(section, option)\<close> is
  \<^verbatim>\<open>self._convert_to_boolean(self.get(section, option))\<close>.\<close>

definition getboolean :: "'a config_scheme \<Rightarrow> string \<Rightarrow> string \<Rightarrow> error + bool" where
  "getboolean c section option = rbind (get c section option) convert_to_boolean"

text \<open>\<^verbatim>\<open>value.replace('%%', '')\<close> and \<^verbatim>\<open>_KEYCRE.sub('', tmp_value)\<close>, the two steps of
  \<^verbatim>\<open>BasicInterpolation.before_set\<close>, which raises \<^verbatim>\<open>ValueError\<close> when a \<^verbatim>\<open>%\<close> is
  left after them.\<close>

fun drop_escaped :: "string \<Rightarrow> string" where
  "drop_escaped (a # b # cs) =
     (if a = CHR ''%'' \<and> b = CHR ''%'' then drop_escaped cs else a # drop_escaped (b # cs))"
| "drop_escaped cs = cs"

function drop_references :: "string \<Rightarrow> string" where
  "drop_references [] = []"
| "drop_references (c # cs) =
     (case keycre_match (c # cs) of
        Some (name, rest) \<Rightarrow> drop_references rest
      | None \<Rightarrow> c # drop_references cs)"
  by pat_completeness auto
termination drop_references
proof (relation "measure length", goal_cases)
  case 1
  show ?case by simp
next
  case (2 c cs)
  show ?case by simp
next
  case (3 c cs x2 name rest)
  then show ?case using keycre_match_shorter[of "c # cs" name rest] by simp
qed

definition before_set :: "string \<Rightarrow> error + string" where
  "before_set v =
     (if CHR ''%'' \<in> set (drop_references (drop_escaped v)) then Inl ValueError else Inr v)"

text \<open>\<^verbatim>\<open>ConfigParser.set(section, option, value)\<close> with a string value (its type check
  passes): \<^verbatim>\<open>if value: value = before_set(...)\<close>, then the store under the transformed
  option name, into the defaults for an empty or DEFAULT section name.\<close>

definition set_option :: "string \<Rightarrow> string \<Rightarrow> string \<Rightarrow> stmt" where
  "set_option section option v w =
     (case (if v \<noteq> [] then before_set v else Inr v) of
        Inl e \<Rightarrow> (Some e, w)
      | Inr v' \<Rightarrow>
          if section = [] \<or> section = default_section
          then (None, w\<lparr>defaults := AList.update (optionxform option) (PStr v') (defaults w)\<rparr>)
          else (case map_of (sections w) section of
                  None \<Rightarrow> (Some (NoSectionError section), w)
                | Some d \<Rightarrow>
                    (None, w\<lparr>sections :=
                       AList.update section (AList.update (optionxform option) (PStr v') d)
                         (sections w)\<rparr>)))"

text \<open>\<^verbatim>\<open>cfg[key]\<close>: \<^verbatim>\<open>KeyError\<close> unless the section exists or is DEFAULT; the
  \<^verbatim>\<open>SectionProxy\<close> it returns is a view named by the section.\<close>

definition has_section :: "'a config_scheme \<Rightarrow> string \<Rightarrow> bool" where
  "has_section c section = (section \<in> set (map fst (sections c)))"

definition Config_getitem :: "'a config_scheme \<Rightarrow> string \<Rightarrow> error + string" where
  "Config_getitem c key =
     (if key \<noteq> default_section \<and> \<not> has_section c key then Inl (KeyError key) else Inr key)"

text \<open>\<^verbatim>\<open>options(section)\<close>: the section's keys, then the default keys it lacks.\<close>

definition options :: "'a config_scheme \<Rightarrow> string \<Rightarrow> error + string list" where
  "options c section =
     (case map_of (sections c) section of
        None \<Rightarrow> Inl (NoSectionError section)
      | Some d \<Rightarrow>
          Inr (map fst d @ filter (\<lambda>k. k \<notin> set (map fst d)) (map fst (defaults c))))"

definition has_option :: "'a config_scheme \<Rightarrow> string \<Rightarrow> string \<Rightarrow> bool" where
  "has_option c section option =
     (if section = [] \<or> section = default_section
      then optionxform option \<in> set (map fst (defaults c))
      else (case map_of (sections c) section of
              None \<Rightarrow> False
            | Some d \<Rightarrow>
                optionxform option \<in> set (map fst d) \<or>
                optionxform option \<in> set (map fst (defaults c))))"

text \<open>\<^verbatim>\<open>SectionProxy\<close>: iteration is over \<^verbatim>\<open>_options()\<close>, \<^verbatim>\<open>proxy[key]\<close> is
  \<^verbatim>\<open>parser.get(name, key)\<close> for an option the section has, and \<^verbatim>\<open>proxy[key] = value\<close>
  is \<^verbatim>\<open>parser.set(name, key, value)\<close>.\<close>

definition proxy_options :: "'a config_scheme \<Rightarrow> string \<Rightarrow> error + string list" where
  "proxy_options c name =
     (if name \<noteq> default_section then options c name else Inr (map fst (defaults c)))"

definition proxy_getitem :: "'a config_scheme \<Rightarrow> string \<Rightarrow> string \<Rightarrow> error + pyval" where
  "proxy_getitem c name key =
     (if \<not> has_option c name key then Inl (KeyError key) else get c name key)"

definition proxy_setitem :: "string \<Rightarrow> string \<Rightarrow> string \<Rightarrow> stmt" where
  "proxy_setitem name key v = set_option name key v"

section \<open>The environment\<close>

text \<open>What the module asks of the interpreter and the machine: the outcome of
  \<^verbatim>\<open>__import__(name)\<close>, \<^verbatim>\<open>os.path.isdir\<close> of a path string and of an integer (a file
  descriptor), \<^verbatim>\<open>os.sep\<close>, and whether the module runs as \<^verbatim>\<open>__main__\<close>.\<close>

datatype import_outcome = Imported | ModuleNotFoundError | ImportRaises error

record env =
  import_module :: "string \<Rightarrow> import_outcome"
  is_directory :: "string \<Rightarrow> bool"
  fd_is_directory :: "int \<Rightarrow> error + bool"
  os_sep :: string
  run_as_main :: bool

text \<open>\<^verbatim>\<open>os.path.isdir(v)\<close>: \<^verbatim>\<open>os.stat\<close> raises \<^verbatim>\<open>TypeError\<close> for a value that is no
  path and no integer.\<close>

definition os_path_isdir :: "env \<Rightarrow> pyval \<Rightarrow> error + bool" where
  "os_path_isdir e v =
     (case v of
        PStr p \<Rightarrow> Inr (is_directory e p)
      | PInt n \<Rightarrow> fd_is_directory e n
      | PBool b \<Rightarrow> fd_is_directory e (if b then 1 else 0)
      | _ \<Rightarrow> Inl TypeError)"

definition logger :: "level \<Rightarrow> message \<Rightarrow> world \<Rightarrow> world" where
  "logger l m w = w\<lparr>log := log w @ [(l, m)]\<rparr>"

definition print :: "message \<Rightarrow> world \<Rightarrow> world" where
  "print m w = w\<lparr>printed := printed w @ [m]\<rparr>"

text \<open>\<^verbatim>\<open>for x in xs: body\<close>, stopped by the first raise.\<close>

fun for_each :: "('a \<Rightarrow> stmt) \<Rightarrow> 'a list \<Rightarrow> stmt" where
  "for_each body [] w = (None, w)"
| "for_each body (x # xs) w =
     (case body x w of
        (Some e, w') \<Rightarrow> (Some e, w')
      | (None, w') \<Rightarrow> for_each body xs w')"

section \<open>Integer coercion\<close>

text \<open>\<^verbatim>\<open>cfg.Network.retry = cfg.getint('Network', 'retry')\<close>,
  \<^verbatim>\<open>cfg.Network.timeout = cfg.getint('Network', 'timeout')\<close>\<close>

definition norm_int :: stmt where
  "norm_int =
     then_run
       (evaluate (\<lambda>w. getint w ''Network'' ''retry'') (\<lambda>n. assign ''Network'' ''retry'' (PInt n)))
       (evaluate (\<lambda>w. getint w ''Network'' ''timeout'') (\<lambda>n. assign ''Network'' ''timeout'' (PInt n)))"

section \<open>Tuple coercion\<close>

text \<open>\<^verbatim>\<open>[i if i.startswith('.') else '.'+i for i in items]\<close>\<close>

definition dotted :: "string \<Rightarrow> string" where
  "dotted i = (if startswith i ''.'' then i else ''.'' @ i)"

text \<open>
  \<^verbatim>\<open>items = cfg.File.media_ext.lower().split(';')\<close>,
  \<^verbatim>\<open>exts = [...]\<close>, \<^verbatim>\<open>cfg.File.media_ext = tuple(exts)\<close>
\<close>

definition media_ext_items :: "world \<Rightarrow> error + string list" where
  "media_ext_items w =
     rbind (attr w ''File'' ''media_ext'') (\<lambda>v.
     rbind (str_lower v) (\<lambda>l. Inr (split_on CHR '';'' l)))"

definition norm_media_ext :: stmt where
  "norm_media_ext =
     evaluate media_ext_items (\<lambda>items. assign ''File'' ''media_ext'' (PTuple (map dotted items)))"

text \<open>\<^verbatim>\<open>items = cfg.File.ignore_folder.split(';')\<close>,
  \<^verbatim>\<open>cfg.File.ignore_folder = tuple(items)\<close>\<close>

definition norm_ignore_folder :: stmt where
  "norm_ignore_folder =
     evaluate (\<lambda>w. rbind (attr w ''File'' ''ignore_folder'') (str_split CHR '';''))
       (\<lambda>items. assign ''File'' ''ignore_folder'' (PTuple items))"

text \<open>\<^verbatim>\<open>items = cfg.Crawler.required_keys.split(',')\<close>,
  \<^verbatim>\<open>cfg.Crawler.required_keys = tuple(items)\<close>\<close>

definition norm_required_keys :: stmt where
  "norm_required_keys =
     evaluate (\<lambda>w. rbind (attr w ''Crawler'' ''required_keys'') (str_split CHR '',''))
       (\<lambda>items. assign ''Crawler'' ''required_keys'' (PTuple items))"

definition norm_tuples :: stmt where
  "norm_tuples = then_run norm_media_ext (then_run norm_ignore_folder norm_required_keys)"

section \<open>Boolean coercion\<close>

text \<open>\<^verbatim>\<open>for sec, key in [...]: cfg._sections[sec][key] = cfg.getboolean(sec, key)\<close>\<close>

definition boolean_items :: "(string \<times> string) list" where
  "boolean_items =
     [(''Crawler'', ''hardworking_mode''),
      (''Crawler'', ''remove_actor_in_title''),
      (''NFO'', ''add_genre_to_tag'')]"

definition norm_boolean_item :: "string \<times> string \<Rightarrow> stmt" where
  "norm_boolean_item item =
     evaluate (\<lambda>w. getboolean w (fst item) (snd item))
       (\<lambda>b. assign (fst item) (snd item) (PBool b))"

definition norm_boolean :: stmt where
  "norm_boolean = for_each norm_boolean_item boolean_items"

section \<open>Proxy validation\<close>

text \<open>
  \<^verbatim>\<open>proxies = {}\<close>, \<^verbatim>\<open>proxy = cfg.Network.proxy.lower()\<close>; for a non-empty \<open>proxy\<close> the
  match decides between \<^verbatim>\<open>proxies = {'http': proxy, 'https': proxy}\<close> and the warning;
  then \<^verbatim>\<open>cfg.Network.proxy = proxies\<close>.
\<close>

definition validate_proxy :: stmt where
  "validate_proxy =
     evaluate (\<lambda>w. rbind (attr w ''Network'' ''proxy'') str_lower)
       (\<lambda>proxy w.
          if proxy \<noteq> [] then
            (if re_match False proxy_pattern proxy
             then assign ''Network'' ''proxy'' (PDict [(''http'', proxy), (''https'', proxy)]) w
             else assign ''Network'' ''proxy'' (PDict []) (logger WARNING InvalidProxyFormat w))
          else assign ''Network'' ''proxy'' (PDict []) w)"

section \<open>Provider resolution\<close>

text \<open>The condition of the gate:
  \<^verbatim>\<open>name == 'fc2fan' and (not os.path.isdir(cfg.Crawler.fc2fan_local_path))\<close>\<close>

definition fc2fan_gate :: "env \<Rightarrow> world \<Rightarrow> string \<Rightarrow> error + bool" where
  "fc2fan_gate e w name =
     (if name = ''fc2fan''
      then rbind (attr w ''Crawler'' ''fc2fan_local_path'') (\<lambda>p.
           rbind (os_path_isdir e p) (\<lambda>b. Inr (\<not> b)))
      else Inr False)"

text \<open>The loop variables \<^verbatim>\<open>valid_mods\<close> and \<^verbatim>\<open>unknown_mods\<close>, with the world.\<close>

type_synonym crawl_state = "string list \<times> string list \<times> world"

text \<open>
  The body of \<^verbatim>\<open>for name in mods\<close>: the gate skips the name with a debug record; else
  \<^verbatim>\<open>__import__('web.' + name)\<close> appends the import name to \<^verbatim>\<open>valid_mods\<close>, or the bare
  name to \<^verbatim>\<open>unknown_mods\<close> on \<^verbatim>\<open>ModuleNotFoundError\<close>. Any other exception leaves the
  \<^verbatim>\<open>try\<close>.
\<close>

definition try_crawler :: "env \<Rightarrow> string \<Rightarrow> crawl_state \<Rightarrow> error option \<times> crawl_state" where
  "try_crawler e name st =
     (case st of (valid_mods, unknown_mods, w) \<Rightarrow>
        (case fc2fan_gate e w name of
           Inl err \<Rightarrow> (Some err, st)
         | Inr True \<Rightarrow> (None, (valid_mods, unknown_mods, logger DEBUG Fc2fanSkipped w))
         | Inr False \<Rightarrow>
             (case import_module e (''web.'' @ name) of
                Imported \<Rightarrow> (None, (valid_mods @ [''web.'' @ name], unknown_mods, w))
              | ModuleNotFoundError \<Rightarrow> (None, (valid_mods, unknown_mods @ [name], w))
              | ImportRaises err \<Rightarrow> (Some err, st))))"

fun try_crawlers :: "env \<Rightarrow> string list \<Rightarrow> crawl_state \<Rightarrow> error option \<times> crawl_state" where
  "try_crawlers e [] st = (None, st)"
| "try_crawlers e (name # names) st =
     (case try_crawler e name st of
        (Some err, st') \<Rightarrow> (Some err, st')
      | (None, st') \<Rightarrow> try_crawlers e names st')"

text \<open>
  The body of \<^verbatim>\<open>for typ, cfg_str in cfg.Priority.items()\<close>:
  \<^verbatim>\<open>mods = cfg_str.split(',')\<close>, \<^verbatim>\<open>valid_mods = []\<close>, the inner loop, and
  \<^verbatim>\<open>cfg._sections['Priority'][typ] = tuple(valid_mods)\<close>. \<^verbatim>\<open>unknown_mods\<close> lives across
  the categories.
\<close>

definition crawl_category ::
  "env \<Rightarrow> string \<times> pyval \<Rightarrow> string list \<times> world \<Rightarrow> error option \<times> string list \<times> world" where
  "crawl_category e item st =
     (case st of (unknown_mods, w) \<Rightarrow>
        (case str_split CHR '','' (snd item) of
           Inl err \<Rightarrow> (Some err, st)
         | Inr mods \<Rightarrow>
             (case try_crawlers e mods ([], unknown_mods, w) of
                (Some err, (valid_mods, unknown_mods', w')) \<Rightarrow> (Some err, (unknown_mods', w'))
              | (None, (valid_mods, unknown_mods', w')) \<Rightarrow>
                  (case assign ''Priority'' (fst item) (PTuple valid_mods) w' of
                     (r, w'') \<Rightarrow> (r, (unknown_mods', w''))))))"

text \<open>The outer loop runs over the items of the dictionary; each key is visited once and
  only its own value is replaced, after the visit.\<close>

fun crawl_categories ::
  "env \<Rightarrow> (string \<times> pyval) list \<Rightarrow> string list \<times> world \<Rightarrow> error option \<times> string list \<times> world" where
  "crawl_categories e [] st = (None, st)"
| "crawl_categories e (item # items) st =
     (case crawl_category e item st of
        (Some err, st') \<Rightarrow> (Some err, st')
      | (None, st') \<Rightarrow> crawl_categories e items st')"

text \<open>\<^verbatim>\<open>if unknown_mods:\<close> one warning, or one printed line when run as
  \<^verbatim>\<open>__main__\<close>, with \<^verbatim>\<open>', '.join(unknown_mods)\<close>.\<close>

definition report_unknown :: "env \<Rightarrow> string list \<Rightarrow> world \<Rightarrow> world" where
  "report_unknown e unknown_mods w =
     (if unknown_mods \<noteq> [] then
        (if \<not> run_as_main e
         then logger WARNING (InvalidCrawlers (join '', '' unknown_mods)) w
         else print (ImportFailedDirectRun (join '', '' unknown_mods)) w)
      else w)"

definition import_crawlers :: "env \<Rightarrow> stmt" where
  "import_crawlers e =
     evaluate (\<lambda>w. Config_getattr w ''Priority'')
       (\<lambda>items w.
          case crawl_categories e items ([], w) of
            (Some err, (unknown_mods, w')) \<Rightarrow> (Some err, w')
          | (None, (unknown_mods, w')) \<Rightarrow> (None, report_unknown e unknown_mods w'))"

section \<open>Naming templates\<close>

text \<open>\<^verbatim>\<open>a + b\<close> where one side is a string: \<^verbatim>\<open>TypeError\<close> unless the other is one too.\<close>

definition add_str :: "pyval \<Rightarrow> string \<Rightarrow> error + string" where
  "add_str v b = (case v of PStr a \<Rightarrow> Inr (a @ b) | _ \<Rightarrow> Inl TypeError)"

definition str_add :: "string \<Rightarrow> pyval \<Rightarrow> error + string" where
  "str_add a v = (case v of PStr b \<Rightarrow> Inr (a @ b) | _ \<Rightarrow> Inl TypeError)"

text \<open>
  \<^verbatim>\<open>combine = cfg.NamingRule.output_folder + os.sep + cfg.NamingRule.save_dir\<close>,
  \<^verbatim>\<open>path_t = Template(combine)\<close>, \<^verbatim>\<open>file_t = Template(cfg.NamingRule.filename)\<close>,
  \<^verbatim>\<open>cfg.NamingRule.save_dir = path_t\<close>, \<^verbatim>\<open>cfg.NamingRule.filename = file_t\<close>.
  \<^verbatim>\<open>Template\<close> stores its argument unchecked.
\<close>

definition convert_naming_rule :: "env \<Rightarrow> stmt" where
  "convert_naming_rule e =
     evaluate
       (\<lambda>w. rbind (attr w ''NamingRule'' ''output_folder'') (\<lambda>a.
             rbind (add_str a (os_sep e)) (\<lambda>ab.
             rbind (attr w ''NamingRule'' ''save_dir'') (\<lambda>b. str_add ab b))))
       (\<lambda>combine.
          evaluate (\<lambda>w. attr w ''NamingRule'' ''filename'')
            (\<lambda>f. then_run
                   (assign ''NamingRule'' ''save_dir'' (PTemplate (PStr combine)))
                   (assign ''NamingRule'' ''filename'' (PTemplate f))))"

section \<open>Free-proxy URL sanitizing\<close>

text \<open>The value stored for a lower-cased \<open>url\<close>:
  \<^verbatim>\<open>if not url.startswith('http'): url = 'http://' + url\<close>, then
  \<^verbatim>\<open>url if is_url(url) else ''\<close>.\<close>

definition checked_url :: "string \<Rightarrow> string" where
  "checked_url url =
     (let url' = (if \<not> startswith url ''http'' then ''http://'' @ url else url)
      in if is_url url' then url' else [])"

text \<open>The body of \<^verbatim>\<open>for site, url in sec.items()\<close>: the view yields \<^verbatim>\<open>sec[site]\<close>;
  then \<^verbatim>\<open>url = url.lower()\<close> and \<^verbatim>\<open>sec[site] = ...\<close>.\<close>

definition check_site :: "string \<Rightarrow> string \<Rightarrow> stmt" where
  "check_site sec site =
     evaluate (\<lambda>w. rbind (proxy_getitem w sec site) str_lower)
       (\<lambda>url. proxy_setitem sec site (checked_url url))"

text \<open>\<^verbatim>\<open>sec = cfg['ProxyFree']\<close>, then the loop over the options the view had when the
  iteration began.\<close>

definition check_proxy_free_url :: stmt where
  "check_proxy_free_url =
     evaluate (\<lambda>w. rbind (Config_getitem w ''ProxyFree'') (proxy_options w))
       (\<lambda>sites. for_each (check_site ''ProxyFree'') sites)"

section \<open>The pipeline\<close>

text \<open>\<^verbatim>\<open>Config.validate\<close>: the seven passes in their fixed order.\<close>

definition validate :: "env \<Rightarrow> stmt" where
  "validate e =
     then_run norm_int
    (then_run norm_tuples
    (then_run norm_boolean
    (then_run validate_proxy
    (then_run (import_crawlers e)
    (then_run (convert_naming_rule e)
     check_proxy_free_url)))))"

section \<open>What provider resolution is to compute\<close>

text \<open>For a configured local path \<open>p\<close>: a name is skipped by the gate when it is
  \<^verbatim>\<open>fc2fan\<close> and \<open>p\<close> is no directory; a name that is not skipped loads when its import
  succeeds and is unknown when its import finds no module.\<close>

definition skipped :: "env \<Rightarrow> string \<Rightarrow> string \<Rightarrow> bool" where
  "skipped e p name = (name = ''fc2fan'' \<and> \<not> is_directory e p)"

definition loads :: "env \<Rightarrow> string \<Rightarrow> string \<Rightarrow> bool" where
  "loads e p name = (\<not> skipped e p name \<and> import_module e (''web.'' @ name) = Imported)"

definition not_found :: "env \<Rightarrow> string \<Rightarrow> string \<Rightarrow> bool" where
  "not_found e p name =
     (\<not> skipped e p name \<and> import_module e (''web.'' @ name) = ModuleNotFoundError)"

text \<open>The handles of a category with the raw string \<open>s\<close>, and the unknown names of all
  categories, in the order of the configuration.\<close>

definition resolved :: "env \<Rightarrow> string \<Rightarrow> string \<Rightarrow> string list" where
  "resolved e p s = map (\<lambda>n. ''web.'' @ n) (filter (loads e p) (split_on CHR '','' s))"

fun raw_names :: "pyval \<Rightarrow> string list" where
  "raw_names (PStr s) = split_on CHR '','' s"
| "raw_names v = []"

definition all_unknown :: "env \<Rightarrow> string \<Rightarrow> (string \<times> pyval) list \<Rightarrow> string list" where
  "all_unknown e p items = concat (map (\<lambda>item. filter (not_found e p) (raw_names (snd item))) items)"

definition skip_notes :: "env \<Rightarrow> string \<Rightarrow> string list \<Rightarrow> (level \<times> message) list" where
  "skip_notes e p names = map (\<lambda>n. (DEBUG, Fc2fanSkipped)) (filter (skipped e p) names)"

text \<open>What the loops of provider resolution rely on in a world: the local path is a string
  and the \<^verbatim>\<open>Priority\<close> section exists.\<close>

definition crawl_ready :: "string \<Rightarrow> world \<Rightarrow> bool" where
  "crawl_ready p w =
     (attr w ''Crawler'' ''fc2fan_local_path'' = Inr (PStr p) \<and>
      map_of (sections w) ''Priority'' \<noteq> None)"

section \<open>What a section view shows\<close>

text \<open>The value a \<^verbatim>\<open>SectionProxy\<close> reads for a key before interpolation: the section's own
  entry, else the default.\<close>

definition visible :: "'a config_scheme \<Rightarrow> string \<Rightarrow> string \<Rightarrow> pyval option" where
  "visible c section k =
     (case map_of (sections c) section of
        None \<Rightarrow> None
      | Some d \<Rightarrow> (case map_of d k of Some v \<Rightarrow> Some v | None \<Rightarrow> map_of (defaults c) k))"

section \<open>What sanitizing is to compute\<close>



text \<open>The loop over \<open>sites\<close> reaches the site \<open>k\<close> when the entries before it have been
  handled without a raise; \<open>at_turn sites k w\<close> is the configuration in which it does.\<close>

definition reached :: "string list \<Rightarrow> string \<Rightarrow> world \<Rightarrow> bool" where
  "reached sites k w =
     (fst (for_each (check_site ''ProxyFree'') (takeWhile (\<lambda>x. x \<noteq> k) sites) w) = None)"



section \<open>A sample configuration\<close>

text \<open>A configuration with the sections and keys of the fixed schema, as the loader leaves
  it (every value a string), and an environment in which the providers \<^verbatim>\<open>siteA\<close>,
  \<^verbatim>\<open>siteC\<close> and \<^verbatim>\<open>fc2fan\<close> exist and no path is a directory.\<close>

definition sample_env :: env where
  "sample_env =
     \<lparr>import_module =
        (\<lambda>n. if n = ''web.siteA'' \<or> n = ''web.siteC'' \<or> n = ''web.fc2fan''
              then Imported else ModuleNotFoundError),
      is_directory = (\<lambda>p. False),
      fd_is_directory = (\<lambda>n. Inr False),
      os_sep = ''/'',
      run_as_main = False\<rparr>"

definition sample :: world where
  "sample =
     \<lparr>sections =
        [(''Network'',
          [(''retry'', PStr ''3''), (''timeout'', PStr ''10''),
           (''proxy'', PStr ''HTTP://127.0.0.1:1080'')]),
         (''File'',
          [(''media_ext'', PStr ''mp4;AVI;.mkv''), (''ignore_folder'', PStr ''a;b'')]),
         (''Crawler'',
          [(''required_keys'', PStr ''cover,title''), (''hardworking_mode'', PStr ''Yes''),
           (''remove_actor_in_title'', PStr ''no''), (''fc2fan_local_path'', PStr [])]),
         (''Priority'',
          [(''actor'', PStr ''siteA,siteB,siteC''), (''fc2'', PStr ''fc2fan,siteA'')]),
         (''NamingRule'',
          [(''output_folder'', PStr ''out''), (''save_dir'', PStr ''$num''),
           (''filename'', PStr ''$num'')]),
         (''NFO'', [(''add_genre_to_tag'', PStr ''ON'')]),
         (''ProxyFree'',
          [(''sitea'', PStr ''example.com''), (''bad'', PStr ''!!!invalid!!!'')])],
      defaults = [], log = [], printed = []\<rparr>"



text \<open>A configuration with a section whose name is also the name of a method of the
  parser.\<close>

definition sample_items :: world where
  "sample_items =
     \<lparr>sections = [(''items'', [(''k'', PStr ''v'')])],
      defaults = [], log = [], printed = []\<rparr>"


text \<open>A configuration whose media extensions hold a letter outside ASCII, the upper-case
  A with diaeresis (code point 196).\<close>

definition sample_latin1 :: world where
  "sample_latin1 =
     \<lparr>sections = [(''File'', [(''media_ext'', PStr (''MP4;'' @ [CHR 0xC4] @ ''VI''))])],
      defaults = [], log = [], printed = []\<rparr>"

section \<open>Properties\<close>

subsection \<open>Characters and strings\<close>

lemma code_lower_char: "code (lower_char c) = (if is_upper c then code c + 32 else code c)"
  by (auto simp: lower_char_def is_upper_def code_def)

lemma not_upper_lower_char: "\<not> is_upper (lower_char c)"
  by (auto simp: code_lower_char is_upper_def)

lemma lower_char_idem: "lower_char (lower_char c) = lower_char c"
  using not_upper_lower_char[of c] by (simp add: lower_char_def)

lemma lower_idem: "lower (lower s) = lower s"
  by (simp add: lower_def lower_char_idem)

lemma lower_latin1:
  "lower [CHR 0xC0, CHR 0xD6, CHR 0xD7, CHR 0xDE, CHR 0xDF, CHR 0xFF] =
     [CHR 0xE0, CHR 0xF6, CHR 0xD7, CHR 0xFE, CHR 0xDF, CHR 0xFF]"
  by code_simp

lemma space_latin1:
  "is_space (CHR 0x85) \<and> is_space (CHR 0xA0) \<and>
   is_url ''http://example.com/ab'' \<and> \<not> is_url (''http://example.com/a'' @ [CHR 0xA0] @ ''b'')"
  by code_simp

lemma lower_char_fixed:
  assumes "code k < 65"
  shows "lower_char c = k \<longleftrightarrow> c = k"
proof
  assume a: "lower_char c = k"
  have "\<not> is_upper c"
  proof
    assume u: "is_upper c"
    then have "code k = code c + 32" using a code_lower_char[of c] by simp
    then show False using u assms by (simp add: is_upper_def)
  qed
  then show "c = k" using a by (simp add: lower_char_def)
next
  assume "c = k"
  then show "lower_char c = k" using assms by (simp add: lower_char_def is_upper_def)
qed

lemma lower_char_semicolon: "lower_char c = CHR '';'' \<longleftrightarrow> c = CHR '';''"
  by (rule lower_char_fixed) (simp add: code_def)

lemma split_on_lower: "split_on CHR '';'' (lower s) = map lower (split_on CHR '';'' s)"
  by (induction s) (auto simp: lower_def lower_char_semicolon split: list.splits)

lemma dotted_startswith: "startswith (dotted i) ''.''"
  by (simp add: dotted_def startswith_def)

lemma lower_dotted_lower: "lower (dotted (lower t)) = dotted (lower t)"
  by (simp add: dotted_def lower_idem) (simp add: lower_def lower_char_def is_upper_def code_def)

lemma dotted_lower_no_upper: "c \<in> set (dotted (lower t)) \<Longrightarrow> \<not> is_upper c"
proof -
  assume "c \<in> set (dotted (lower t))"
  then have "c = CHR ''.'' \<or> c \<in> set (lower t)"
    by (auto simp: dotted_def split: if_splits)
  then show ?thesis
  proof
    assume "c = CHR ''.''"
    then show ?thesis by (simp add: is_upper_def code_def)
  next
    assume "c \<in> set (lower t)"
    then obtain x where "c = lower_char x" by (auto simp: lower_def)
    then show ?thesis by (simp add: not_upper_lower_char)
  qed
qed

subsection \<open>Reading and writing fields\<close>

lemma attr_Inr_iff:
  "attr c sec key = Inr v \<longleftrightarrow> (\<exists>d. map_of (sections c) sec = Some d \<and> DotDict_getattr d key = v)"
  by (auto simp: attr_def rbind_def Config_getattr_def split: option.splits)

lemma attr_assign:
  "attr (snd (assign sec key v w)) sec' key' =
     (if sec' = sec \<and> key' = key \<and> map_of (sections w) sec \<noteq> None then Inr v else attr w sec' key')"
  by (auto simp: assign_def attr_def rbind_def Config_getattr_def DotDict_getattr_def
      DotDict_setattr_def update_conv' split: option.splits)

lemma fst_assign: "fst (assign sec key v w) = None \<longleftrightarrow> map_of (sections w) sec \<noteq> None"
  by (auto simp: assign_def split: option.splits)

lemma log_assign: "log (snd (assign sec key v w)) = log w"
  by (auto simp: assign_def split: option.splits)


lemma pass_names:
  "list_all (\<lambda>n. n \<notin> set Config_attributes)
     [''Network'', ''File'', ''Crawler'', ''Priority'', ''NamingRule''] \<and>
   list_all (\<lambda>n. n \<notin> set DotDict_attributes)
     [''retry'', ''timeout'', ''media_ext'', ''ignore_folder'', ''required_keys'', ''proxy'',
      ''fc2fan_local_path'', ''output_folder'', ''save_dir'', ''filename'']"
  by code_simp

lemma access_attr:
  assumes "sec \<notin> set Config_attributes" and "key \<notin> set DotDict_attributes"
  shows "access c sec key = Some (case attr c sec key of Inl e \<Rightarrow> Inl e | Inr v \<Rightarrow> Inr (Value v))"
  using assms
  by (simp add: access_def Config_getattribute_def DotDict_getattribute_def attr_def rbind_def
      Config_getattr_def split: option.splits)

text \<open>
  Claim C9, amended. A name of the parser's own is found before the hook is asked, whether
  or not a section has that name. For every other name, attribute access raises
  \<^verbatim>\<open>KeyError\<close> carrying the name when no section has it, and returns the section's
  dictionary when one has; \<^verbatim>\<open>config.Section.key\<close> then yields the value stored under a
  key that is no name of \<^verbatim>\<open>dict\<close>'s own.
\<close>

theorem Config_getattribute_section:
  "(name \<in> set Config_attributes \<longrightarrow> Config_getattribute c name = Inr (Member name)) \<and>
   (name \<notin> set Config_attributes \<longrightarrow>
      (name \<notin> fst ` set (sections c) \<longrightarrow> Config_getattribute c name = Inl (KeyError name)) \<and>
      (\<forall>d. map_of (sections c) name = Some d \<longrightarrow>
         Config_getattribute c name = Inr (Section d) \<and>
         (\<forall>key v. key \<notin> set DotDict_attributes \<and> map_of d key = Some v \<longrightarrow>
            access c name key = Some (Inr (Value v)))))"
  by (simp add: Config_getattribute_def Config_getattr_def access_def DotDict_getattribute_def
      DotDict_getattr_def rbind_def map_of_eq_None_iff[symmetric])

theorem Config_getattribute_section_witness:
  "Config_getattribute sample ''getint'' = Inr (Member ''getint'') \<and>
   Config_getattribute sample ''Nope'' = Inl (KeyError ''Nope'') \<and>
   Config_getattribute sample ''NFO'' = Inr (Section [(''add_genre_to_tag'', PStr ''ON'')]) \<and>
   access sample ''NFO'' ''add_genre_to_tag'' = Some (Inr (Value (PStr ''ON'')))"
proof -
  have own: "''getint'' \<in> set Config_attributes"
    by (simp add: Config_attributes_def)
  have other: "''Nope'' \<notin> set Config_attributes" "''NFO'' \<notin> set Config_attributes"
    by (simp_all add: Config_attributes_def)
  have absent: "''Nope'' \<notin> fst ` set (sections sample)"
    by (simp add: sample_def)
  have present: "map_of (sections sample) ''NFO'' = Some [(''add_genre_to_tag'', PStr ''ON'')]"
    by (simp add: sample_def)
  have key: "''add_genre_to_tag'' \<notin> set DotDict_attributes \<and>
      map_of [(''add_genre_to_tag'', PStr ''ON'')] ''add_genre_to_tag'' = Some (PStr ''ON'')"
    by (simp add: DotDict_attributes_def)
  show ?thesis
    using Config_getattribute_section[of "''getint''" sample]
      Config_getattribute_section[of "''Nope''" sample]
      Config_getattribute_section[of "''NFO''" sample]
      own other absent present key by blast
qed

text \<open>
  Claim C9 as stated fails for the names of the parser's own. No section of the sample is
  named \<^verbatim>\<open>getint\<close>, and \<^verbatim>\<open>cfg.getint\<close> is the method that \<^verbatim>\<open>norm_int\<close> calls, not a
  \<^verbatim>\<open>KeyError\<close>; a section named \<^verbatim>\<open>items\<close> is present, and \<^verbatim>\<open>cfg.items\<close> is the
  parser's method, not the section's dictionary.
\<close>

theorem Config_getattribute_member_counterexample:
  "''getint'' \<notin> fst ` set (sections sample) \<and>
   Config_getattribute sample ''getint'' = Inr (Member ''getint'') \<and>
   map_of (sections sample_items) ''items'' = Some [(''k'', PStr ''v'')] \<and>
   Config_getattribute sample_items ''items'' = Inr (Member ''items'')"
  by (simp add: sample_def sample_items_def Config_getattribute_def Config_attributes_def)

text \<open>
  Claim C10, amended. Let the section name be no name of the parser's own. In a section
  that is present, a key the section does not have reads as \<^verbatim>\<open>None\<close> unless it is a
  name of \<^verbatim>\<open>dict\<close>'s own, which reads as that attribute of the dictionary; and
  \<^verbatim>\<open>config.Section.key\<close> raises exactly when the section is missing.
\<close>

theorem access_missing_key:
  "sec \<notin> set Config_attributes \<Longrightarrow>
   (\<forall>d. map_of (sections c) sec = Some d \<and> key \<notin> fst ` set d \<longrightarrow>
      access c sec key =
        Some (Inr (if key \<in> set DotDict_attributes then Own key else Value PNone))) \<and>
   ((\<exists>e. access c sec key = Some (Inl e)) \<longleftrightarrow> sec \<notin> fst ` set (sections c)) \<and>
   (sec \<notin> fst ` set (sections c) \<longrightarrow> access c sec key = Some (Inl (KeyError sec)))"
proof -
  assume a: "sec \<notin> set Config_attributes"
  have "map_of (sections c) sec = None \<longleftrightarrow> sec \<notin> fst ` set (sections c)"
    by (simp add: map_of_eq_None_iff)
  then show ?thesis
    using a
    by (auto simp: access_def Config_getattribute_def Config_getattr_def DotDict_getattribute_def
        DotDict_getattr_def rbind_def map_of_eq_None_iff[symmetric] split: option.splits)
qed

theorem access_missing_key_witness:
  "access sample ''NFO'' ''no_such_key'' = Some (Inr (Value PNone)) \<and>
   access sample ''Nope'' ''no_such_key'' = Some (Inl (KeyError ''Nope''))"
proof -
  have other: "''Nope'' \<notin> set Config_attributes" "''NFO'' \<notin> set Config_attributes"
    by (simp_all add: Config_attributes_def)
  have present: "map_of (sections sample) ''NFO'' = Some [(''add_genre_to_tag'', PStr ''ON'')]"
    by (simp add: sample_def)
  have nokey: "''no_such_key'' \<notin> fst ` set [(''add_genre_to_tag'', PStr ''ON'')]"
    "''no_such_key'' \<notin> set DotDict_attributes"
    by (simp_all add: DotDict_attributes_def)
  have absent: "''Nope'' \<notin> fst ` set (sections sample)"
    by (simp add: sample_def)
  show ?thesis
    using access_missing_key[OF other(2), of sample "''no_such_key''"]
      access_missing_key[OF other(1), of sample "''no_such_key''"] present nokey absent
    by auto
qed

text \<open>
  Claim C10 as stated fails for the names of \<^verbatim>\<open>dict\<close>'s own. The section \<^verbatim>\<open>NFO\<close> is
  present and has no key \<^verbatim>\<open>items\<close>, and \<^verbatim>\<open>cfg.NFO.items\<close> is the dictionary's method,
  as \<^verbatim>\<open>import_crawlers\<close> calls it on \<^verbatim>\<open>cfg.Priority\<close>, not \<^verbatim>\<open>None\<close>.
\<close>

theorem access_dict_method_counterexample:
  "map_of (sections sample) ''NFO'' = Some [(''add_genre_to_tag'', PStr ''ON'')] \<and>
   ''items'' \<notin> fst ` set [(''add_genre_to_tag'', PStr ''ON'')] \<and>
   access sample ''NFO'' ''items'' = Some (Inr (Own ''items'')) \<and>
   access sample ''NFO'' ''items'' \<noteq> Some (Inr (Value PNone))"
  by (simp add: sample_def access_def Config_getattribute_def Config_attributes_def
      Config_getattr_def rbind_def DotDict_getattribute_def DotDict_attributes_def)

text \<open>
  Claim C8. \<^verbatim>\<open>is_url\<close> accepts \<^verbatim>\<open>http://example.com/path?q=1\<close> and
  \<^verbatim>\<open>https://192.168.0.1:8080\<close> and rejects \<^verbatim>\<open>not a url\<close>.
\<close>

theorem is_url_examples:
  "is_url ''http://example.com/path?q=1'' \<and> is_url ''https://192.168.0.1:8080'' \<and>
   \<not> is_url ''not a url''"
  by code_simp

subsection \<open>Statements\<close>

lemma then_run_split:
  "then_run f g w = (if fst (f w) = None then g (snd (f w)) else f w)"
  by (cases "f w") (auto simp: then_run_def split: option.splits)

lemma attr_evaluate_assign_other:
  "sec' \<noteq> sec \<or> key' \<noteq> key \<Longrightarrow>
   attr (snd (evaluate ex (\<lambda>x. assign sec key (f x)) w)) sec' key' = attr w sec' key'"
  by (auto simp: evaluate_def attr_assign split: sum.splits)

lemma attr_section_present: "attr w sec key = Inr v \<Longrightarrow> map_of (sections w) sec \<noteq> None"
  by (auto simp: attr_Inr_iff)

subsection \<open>Tuple coercion\<close>

lemma norm_media_ext_result:
  assumes "attr w ''File'' ''media_ext'' = Inr (PStr s)"
  shows "norm_media_ext w =
           assign ''File'' ''media_ext'' (PTuple (map dotted (split_on CHR '';'' (lower s)))) w"
  using assms by (simp add: norm_media_ext_def evaluate_def media_ext_items_def rbind_def str_lower_def)

lemma attr_norm_ignore_folder:
  "attr (snd (norm_ignore_folder w)) ''File'' ''media_ext'' = attr w ''File'' ''media_ext''"
  unfolding norm_ignore_folder_def by (rule attr_evaluate_assign_other) simp

lemma attr_norm_required_keys:
  "attr (snd (norm_required_keys w)) ''File'' ''media_ext'' = attr w ''File'' ''media_ext''"
  unfolding norm_required_keys_def by (rule attr_evaluate_assign_other) simp

text \<open>
  Claim C1. For every raw string \<open>s\<close> in \<^verbatim>\<open>File.media_ext\<close>, tuple coercion leaves there
  the tuple of the pieces of \<open>s\<close> between semicolons, each lower-cased and given a leading
  dot when it has none, in their order and with duplicates kept; every entry starts with a
  dot and is lower-case. The value holds whether or not the later statements of the pass
  raise.
\<close>
theorem norm_tuples_media_ext:
  assumes "attr w ''File'' ''media_ext'' = Inr (PStr s)"
  shows "attr (snd (norm_tuples w)) ''File'' ''media_ext'' =
           Inr (PTuple (map (\<lambda>t. dotted (lower t)) (split_on CHR '';'' s))) \<and>
         (\<forall>e \<in> set (map (\<lambda>t. dotted (lower t)) (split_on CHR '';'' s)).
            startswith e ''.'' \<and> lower e = e \<and> (\<forall>c \<in> set e. \<not> is_upper c))"
proof
  let ?exts = "map dotted (split_on CHR '';'' (lower s))"
  let ?w1 = "snd (norm_media_ext w)"
  have present: "map_of (sections w) ''File'' \<noteq> None"
    using assms by (rule attr_section_present)
  have step: "norm_media_ext w = assign ''File'' ''media_ext'' (PTuple ?exts) w"
    using assms by (rule norm_media_ext_result)
  have ok: "fst (norm_media_ext w) = None"
    using present by (simp add: step fst_assign)
  have w1: "attr ?w1 ''File'' ''media_ext'' = Inr (PTuple ?exts)"
    using present by (simp add: step attr_assign)
  have rest: "attr (snd (then_run norm_ignore_folder norm_required_keys ?w1)) ''File'' ''media_ext'' =
        attr ?w1 ''File'' ''media_ext''"
    by (simp add: then_run_split attr_norm_ignore_folder attr_norm_required_keys)
  have "attr (snd (norm_tuples w)) ''File'' ''media_ext'' = Inr (PTuple ?exts)"
    using ok rest w1 by (simp add: norm_tuples_def then_run_split[of norm_media_ext])
  then show "attr (snd (norm_tuples w)) ''File'' ''media_ext'' =
           Inr (PTuple (map (\<lambda>t. dotted (lower t)) (split_on CHR '';'' s)))"
    by (simp add: split_on_lower)
next
  show "\<forall>e \<in> set (map (\<lambda>t. dotted (lower t)) (split_on CHR '';'' s)).
            startswith e ''.'' \<and> lower e = e \<and> (\<forall>c \<in> set e. \<not> is_upper c)"
    by (auto simp: dotted_startswith lower_dotted_lower dest: dotted_lower_no_upper)
qed

theorem norm_tuples_media_ext_witness:
  "attr sample ''File'' ''media_ext'' = Inr (PStr ''mp4;AVI;.mkv'') \<and>
   attr (snd (norm_tuples sample)) ''File'' ''media_ext'' =
     Inr (PTuple [''.mp4'', ''.avi'', ''.mkv'']) \<and>
   attr (snd (norm_tuples sample_latin1)) ''File'' ''media_ext'' =
     Inr (PTuple [''.mp4'', ''.'' @ [CHR 0xE4] @ ''vi''])"
proof -
  have h: "attr sample ''File'' ''media_ext'' = Inr (PStr ''mp4;AVI;.mkv'')"
    by code_simp
  have v: "map (\<lambda>t. dotted (lower t)) (split_on CHR '';'' ''mp4;AVI;.mkv'') =
      [''.mp4'', ''.avi'', ''.mkv'']"
    by code_simp
  have h': "attr sample_latin1 ''File'' ''media_ext'' = Inr (PStr (''MP4;'' @ [CHR 0xC4] @ ''VI''))"
    by code_simp
  have v': "map (\<lambda>t. dotted (lower t)) (split_on CHR '';'' (''MP4;'' @ [CHR 0xC4] @ ''VI'')) =
      [''.mp4'', ''.'' @ [CHR 0xE4] @ ''vi'']"
    by code_simp
  note a = norm_tuples_media_ext[OF h, THEN conjunct1, unfolded v]
  note b = norm_tuples_media_ext[OF h', THEN conjunct1, unfolded v']
  show ?thesis
    by (intro conjI) (rule h a b)+
qed

subsection \<open>Proxy validation\<close>

lemma sections_logger: "sections (logger l m w) = sections w"
  by (simp add: logger_def)

lemma attr_logger: "attr (logger l m w) sec key = attr w sec key"
  by (simp add: attr_def Config_getattr_def sections_logger)

lemma log_logger: "log (logger l m w) = log w @ [(l, m)]"
  by (simp add: logger_def)

text \<open>
  Claim C2. For every raw string in \<^verbatim>\<open>Network.proxy\<close>, proxy validation completes without
  raising. With \<open>p\<close> the lower-cased string: when \<open>p\<close> is non-empty and matches the proxy
  pattern, \<^verbatim>\<open>Network.proxy\<close> becomes the dictionary that gives \<open>p\<close> itself to both
  \<^verbatim>\<open>http\<close> and \<^verbatim>\<open>https\<close>; when \<open>p\<close> is non-empty and does not match, one warning is
  logged and \<^verbatim>\<open>Network.proxy\<close> becomes the empty dictionary; nothing else is logged.
\<close>

theorem validate_proxy_result:
  assumes "attr w ''Network'' ''proxy'' = Inr (PStr s)"
  shows "fst (validate_proxy w) = None \<and>
         attr (snd (validate_proxy w)) ''Network'' ''proxy'' =
           Inr (PDict (if lower s \<noteq> [] \<and> re_match False proxy_pattern (lower s)
                       then [(''http'', lower s), (''https'', lower s)] else [])) \<and>
         log (snd (validate_proxy w)) =
           log w @ (if lower s \<noteq> [] \<and> \<not> re_match False proxy_pattern (lower s)
                    then [(WARNING, InvalidProxyFormat)] else [])"
proof -
  have present: "map_of (sections w) ''Network'' \<noteq> None"
    using assms by (rule attr_section_present)
  have ex: "rbind (attr w ''Network'' ''proxy'') str_lower = Inr (lower s)"
    using assms by (simp add: rbind_def str_lower_def)
  show ?thesis
    using present
    by (simp add: validate_proxy_def evaluate_def ex fst_assign attr_assign log_assign
        sections_logger log_logger)
qed

theorem validate_proxy_result_witness:
  "attr (snd (validate_proxy sample)) ''Network'' ''proxy'' =
     Inr (PDict [(''http'', ''http://127.0.0.1:1080''), (''https'', ''http://127.0.0.1:1080'')]) \<and>
   log (snd (validate_proxy sample)) = [] \<and>
   fst (validate_proxy (sample\<lparr>sections := [(''Network'', [(''proxy'', PStr ''ftp://x:1'')])]\<rparr>)) = None \<and>
   attr (snd (validate_proxy (sample\<lparr>sections := [(''Network'', [(''proxy'', PStr ''ftp://x:1'')])]\<rparr>)))
     ''Network'' ''proxy'' = Inr (PDict []) \<and>
   log (snd (validate_proxy (sample\<lparr>sections := [(''Network'', [(''proxy'', PStr ''ftp://x:1'')])]\<rparr>))) =
     [(WARNING, InvalidProxyFormat)]"
proof -
  let ?bad = "sample\<lparr>sections := [(''Network'', [(''proxy'', PStr ''ftp://x:1'')])]\<rparr>"
  have h1: "attr sample ''Network'' ''proxy'' = Inr (PStr ''HTTP://127.0.0.1:1080'')"
    by code_simp
  have h2: "attr ?bad ''Network'' ''proxy'' = Inr (PStr ''ftp://x:1'')"
    by code_simp
  have l1: "lower ''HTTP://127.0.0.1:1080'' = ''http://127.0.0.1:1080''" by code_simp
  have l2: "lower ''ftp://x:1'' = ''ftp://x:1''" by code_simp
  have m1: "re_match False proxy_pattern ''http://127.0.0.1:1080''" by code_simp
  have m2: "\<not> re_match False proxy_pattern ''ftp://x:1''" by code_simp
  have g1: "log sample = []" by (simp add: sample_def)
  have g2: "log ?bad = []" by (simp add: sample_def)
  show ?thesis
    using validate_proxy_result[OF h1] validate_proxy_result[OF h2]
    unfolding l1 l2 g1 g2 using m1 m2 by simp
qed

subsection \<open>Plain values pass through the parser\<close>








lemma unify_values_visible:
  "map_of (sections c) section = Some d \<Longrightarrow> unify_values c section = Inr (visible c section)"
  by (auto simp: unify_values_def visible_def fun_eq_iff split: option.splits)


subsection \<open>Loops\<close>



lemma attr_for_each:
  assumes "\<And>x v. x \<in> set xs \<Longrightarrow> attr (snd (body x v)) sec key = attr v sec key"
  shows "attr (snd (for_each body xs w)) sec key = attr w sec key"
  using assms
proof (induction xs arbitrary: w)
  case Nil
  then show ?case by simp
next
  case (Cons x xs)
  have a: "attr (snd (body x w)) sec key = attr w sec key" using Cons.prems by simp
  have b: "attr (snd (for_each body xs (snd (body x w)))) sec key = attr (snd (body x w)) sec key"
    using Cons.IH Cons.prems by simp
  show ?case using a b by (cases "body x w") (auto split: option.splits)
qed

subsection \<open>Boolean coercion\<close>


lemma norm_boolean_item_split:
  "norm_boolean_item item w =
     (case getboolean w (fst item) (snd item) of
        Inl e \<Rightarrow> (Some e, w)
      | Inr b \<Rightarrow> assign (fst item) (snd item) (PBool b) w)"
  by (simp add: norm_boolean_item_def evaluate_def)

lemma norm_boolean_item_frame:
  "(sec, key) \<noteq> item \<Longrightarrow> attr (snd (norm_boolean_item item w)) sec key = attr w sec key"
  by (cases item) (auto simp: norm_boolean_item_split attr_assign split: sum.splits)





subsection \<open>Provider resolution\<close>

lemma fc2fan_gate_path:
  assumes "attr w ''Crawler'' ''fc2fan_local_path'' = Inr (PStr p)"
  shows "fc2fan_gate e w name = Inr (skipped e p name)"
  using assms by (simp add: fc2fan_gate_def rbind_def os_path_isdir_def skipped_def)

lemma try_crawler_path:
  assumes "attr w ''Crawler'' ''fc2fan_local_path'' = Inr (PStr p)"
  shows "try_crawler e name (valid, unknown, w) =
     (if skipped e p name then (None, (valid, unknown, logger DEBUG Fc2fanSkipped w))
      else (case import_module e (''web.'' @ name) of
              Imported \<Rightarrow> (None, (valid @ [''web.'' @ name], unknown, w))
            | ModuleNotFoundError \<Rightarrow> (None, (valid, unknown @ [name], w))
            | ImportRaises err \<Rightarrow> (Some err, (valid, unknown, w))))"
  by (simp add: try_crawler_def fc2fan_gate_path[OF assms])

lemma try_crawlers_gate_closed:
  assumes "attr w ''Crawler'' ''fc2fan_local_path'' = Inr (PStr p)" and "\<not> is_directory e p"
  shows "(''web.fc2fan'' \<in> set (fst (snd (try_crawlers e mods (valid, unknown, w)))) \<longrightarrow>
            ''web.fc2fan'' \<in> set valid) \<and>
         (''fc2fan'' \<in> set (fst (snd (snd (try_crawlers e mods (valid, unknown, w))))) \<longrightarrow>
            ''fc2fan'' \<in> set unknown)"
  using assms(1)
proof (induction mods arbitrary: valid unknown w)
  case Nil
  then show ?case by simp
next
  case (Cons name names)
  note step = try_crawler_path[OF Cons.prems, of e name valid unknown]
  show ?case
  proof (cases "skipped e p name")
    case True
    have w': "attr (logger DEBUG Fc2fanSkipped w) ''Crawler'' ''fc2fan_local_path'' = Inr (PStr p)"
      using Cons.prems by (simp add: attr_logger)
    show ?thesis using Cons.IH[OF w', of valid unknown] True by (simp add: step)
  next
    case False
    then have ne: "name \<noteq> ''fc2fan''" using assms(2) by (simp add: skipped_def)
    show ?thesis
    proof (cases "import_module e (''web.'' @ name)")
      case Imported
      show ?thesis
        using Cons.IH[OF Cons.prems, of "valid @ [''web.'' @ name]" unknown] False Imported ne
        by (simp add: step)
    next
      case ModuleNotFoundError
      show ?thesis
        using Cons.IH[OF Cons.prems, of valid "unknown @ [name]"] False ModuleNotFoundError ne
        by (simp add: step)
    next
      case (ImportRaises err)
      show ?thesis using False ImportRaises by (simp add: step)
    qed
  qed
qed

text \<open>
  Claim C7. With a string \<open>p\<close> configured as \<^verbatim>\<open>Crawler.fc2fan_local_path\<close>, the step for
  the name \<^verbatim>\<open>fc2fan\<close> goes on to the import only when \<open>p\<close> is a directory; otherwise it
  completes without raising, whatever the import would do, adds one debug record and
  leaves \<^verbatim>\<open>valid_mods\<close> and \<^verbatim>\<open>unknown_mods\<close> as they were. Over any list of names, a
  closed gate keeps \<^verbatim>\<open>web.fc2fan\<close> out of the resolved sequence and \<^verbatim>\<open>fc2fan\<close> out of
  the unknown names.
\<close>

theorem fc2fan_needs_directory:
  assumes "attr w ''Crawler'' ''fc2fan_local_path'' = Inr (PStr p)"
  shows "try_crawler e ''fc2fan'' (valid, unknown, w) =
           (if is_directory e p
            then (case import_module e ''web.fc2fan'' of
                    Imported \<Rightarrow> (None, (valid @ [''web.fc2fan''], unknown, w))
                  | ModuleNotFoundError \<Rightarrow> (None, (valid, unknown @ [''fc2fan''], w))
                  | ImportRaises err \<Rightarrow> (Some err, (valid, unknown, w)))
            else (None, (valid, unknown, logger DEBUG Fc2fanSkipped w))) \<and>
         (\<not> is_directory e p \<longrightarrow>
            (\<forall>mods.
               (''web.fc2fan'' \<in> set (fst (snd (try_crawlers e mods (valid, unknown, w)))) \<longrightarrow>
                  ''web.fc2fan'' \<in> set valid) \<and>
               (''fc2fan'' \<in> set (fst (snd (snd (try_crawlers e mods (valid, unknown, w))))) \<longrightarrow>
                  ''fc2fan'' \<in> set unknown)))"
proof
  show "try_crawler e ''fc2fan'' (valid, unknown, w) =
           (if is_directory e p
            then (case import_module e ''web.fc2fan'' of
                    Imported \<Rightarrow> (None, (valid @ [''web.fc2fan''], unknown, w))
                  | ModuleNotFoundError \<Rightarrow> (None, (valid, unknown @ [''fc2fan''], w))
                  | ImportRaises err \<Rightarrow> (Some err, (valid, unknown, w)))
            else (None, (valid, unknown, logger DEBUG Fc2fanSkipped w)))"
    by (simp add: try_crawler_path[OF assms] skipped_def split: import_outcome.splits)
next
  show "\<not> is_directory e p \<longrightarrow>
            (\<forall>mods.
               (''web.fc2fan'' \<in> set (fst (snd (try_crawlers e mods (valid, unknown, w)))) \<longrightarrow>
                  ''web.fc2fan'' \<in> set valid) \<and>
               (''fc2fan'' \<in> set (fst (snd (snd (try_crawlers e mods (valid, unknown, w))))) \<longrightarrow>
                  ''fc2fan'' \<in> set unknown))"
    using try_crawlers_gate_closed[OF assms] by blast
qed

theorem fc2fan_needs_directory_witness:
  "try_crawler sample_env ''fc2fan'' ([], [], sample) =
     (None, ([], [], logger DEBUG Fc2fanSkipped sample)) \<and>
   ''web.fc2fan'' \<notin> set (fst (snd (try_crawlers sample_env [''siteA'', ''siteB'', ''fc2fan''] ([], [], sample)))) \<and>
   ''fc2fan'' \<notin> set (fst (snd (snd (try_crawlers sample_env [''siteA'', ''siteB'', ''fc2fan''] ([], [], sample)))))"
proof -
  have h: "attr sample ''Crawler'' ''fc2fan_local_path'' = Inr (PStr [])"
    by code_simp
  have nd: "\<not> is_directory sample_env []"
    by (simp add: sample_env_def)
  have a: "try_crawler sample_env ''fc2fan'' ([], [], sample) =
     (None, ([], [], logger DEBUG Fc2fanSkipped sample))"
    using fc2fan_needs_directory[OF h, of sample_env "[]" "[]", THEN conjunct1] nd by simp
  have b: "(''web.fc2fan'' \<in> set (fst (snd (try_crawlers sample_env [''siteA'', ''siteB'', ''fc2fan'']
                ([], [], sample)))) \<longrightarrow> ''web.fc2fan'' \<in> set []) \<and>
      (''fc2fan'' \<in> set (fst (snd (snd (try_crawlers sample_env [''siteA'', ''siteB'', ''fc2fan'']
                ([], [], sample))))) \<longrightarrow> ''fc2fan'' \<in> set [])"
    using fc2fan_needs_directory[OF h, of sample_env "[]" "[]", THEN conjunct2, rule_format, OF nd] .
  have c: "''web.fc2fan'' \<notin> set ([] :: string list)" "''fc2fan'' \<notin> set ([] :: string list)"
    by simp_all
  show ?thesis using a b c by blast
qed

subsection \<open>Provider resolution, the whole pass\<close>

lemma logger_as_update: "logger l m w = w\<lparr>log := log w @ [(l, m)]\<rparr>"
  by (simp add: logger_def)

lemma attr_log_update: "attr (w\<lparr>log := x\<rparr>) sec key = attr w sec key"
  by (simp add: attr_def Config_getattr_def)

lemma attr_printed_update: "attr (w\<lparr>printed := x\<rparr>) sec key = attr w sec key"
  by (simp add: attr_def Config_getattr_def)

lemma attr_report_unknown: "attr (report_unknown e u w) sec key = attr w sec key"
  by (simp add: report_unknown_def attr_logger print_def attr_printed_update)

lemma try_crawlers_result:
  assumes "attr w ''Crawler'' ''fc2fan_local_path'' = Inr (PStr p)"
    and "\<forall>n err. import_module e n \<noteq> ImportRaises err"
  shows "try_crawlers e mods (valid, unknown, w) =
     (None, (valid @ map (\<lambda>n. ''web.'' @ n) (filter (loads e p) mods),
             unknown @ filter (not_found e p) mods,
             w\<lparr>log := log w @ skip_notes e p mods\<rparr>))"
  using assms(1)
proof (induction mods arbitrary: valid unknown w)
  case Nil
  then show ?case by (simp add: skip_notes_def)
next
  case (Cons name names)
  note step = try_crawler_path[OF Cons.prems, of e name valid unknown]
  show ?case
  proof (cases "skipped e p name")
    case True
    have w': "attr (w\<lparr>log := log w @ [(DEBUG, Fc2fanSkipped)]\<rparr>) ''Crawler'' ''fc2fan_local_path'' =
        Inr (PStr p)"
      using Cons.prems by (simp add: attr_log_update)
    show ?thesis
      using True by (simp add: step Cons.IH[OF w'] loads_def not_found_def skip_notes_def
          logger_as_update)
  next
    case False
    show ?thesis
    proof (cases "import_module e (''web.'' @ name)")
      case Imported
      then show ?thesis
        using False by (simp add: step Cons.IH[OF Cons.prems] loads_def not_found_def skip_notes_def)
    next
      case ModuleNotFoundError
      then show ?thesis
        using False by (simp add: step Cons.IH[OF Cons.prems] loads_def not_found_def skip_notes_def)
    next
      case (ImportRaises err)
      then show ?thesis using assms(2) by simp
    qed
  qed
qed

lemma crawl_ready_log: "crawl_ready p (w\<lparr>log := x\<rparr>) = crawl_ready p w"
  by (simp add: crawl_ready_def attr_log_update)

lemma sections_assign_present:
  "map_of (sections w) sec' \<noteq> None \<Longrightarrow> map_of (sections (snd (assign sec key v w))) sec' \<noteq> None"
  by (auto simp: assign_def update_conv' split: option.splits)

lemma crawl_ready_assign:
  "crawl_ready p w \<Longrightarrow> crawl_ready p (snd (assign ''Priority'' typ v w))"
  by (simp add: crawl_ready_def attr_assign sections_assign_present)

lemma crawl_category_result:
  assumes "crawl_ready p w"
    and "\<forall>n err. import_module e n \<noteq> ImportRaises err"
  shows "crawl_category e (typ, PStr s) (unknown, w) =
     (None, (unknown @ filter (not_found e p) (split_on CHR '','' s),
             snd (assign ''Priority'' typ (PTuple (resolved e p s))
                    (w\<lparr>log := log w @ skip_notes e p (split_on CHR '','' s)\<rparr>))))"
proof -
  have path: "attr w ''Crawler'' ''fc2fan_local_path'' = Inr (PStr p)"
    and pres: "map_of (sections w) ''Priority'' \<noteq> None"
    using assms(1) by (simp_all add: crawl_ready_def)
  let ?w0 = "w\<lparr>log := log w @ skip_notes e p (split_on CHR '','' s)\<rparr>"
  have a: "fst (assign ''Priority'' typ (PTuple (resolved e p s)) ?w0) = None"
    using pres by (simp add: fst_assign)
  have t: "try_crawlers e (split_on CHR '','' s) ([], unknown, w) =
      (None, (resolved e p s, unknown @ filter (not_found e p) (split_on CHR '','' s), ?w0))"
    by (simp add: try_crawlers_result[OF path assms(2)] resolved_def)
  show ?thesis
    by (simp add: crawl_category_def str_split_def t case_prod_beta a)
qed

lemma crawl_categories_result:
  assumes "\<forall>n err. import_module e n \<noteq> ImportRaises err"
    and "crawl_ready p w"
    and "\<forall>item \<in> set items. \<exists>s. snd item = PStr s"
  shows "fst (crawl_categories e items (unknown, w)) = None \<and>
         fst (snd (crawl_categories e items (unknown, w))) = unknown @ all_unknown e p items \<and>
         crawl_ready p (snd (snd (crawl_categories e items (unknown, w)))) \<and>
         (\<forall>typ. typ \<notin> fst ` set items \<longrightarrow>
            attr (snd (snd (crawl_categories e items (unknown, w)))) ''Priority'' typ =
            attr w ''Priority'' typ) \<and>
         (distinct (map fst items) \<longrightarrow>
            (\<forall>typ s. (typ, PStr s) \<in> set items \<longrightarrow>
               attr (snd (snd (crawl_categories e items (unknown, w)))) ''Priority'' typ =
               Inr (PTuple (resolved e p s))))"
  using assms(2,3)
proof (induction items arbitrary: unknown w)
  case Nil
  then show ?case by (simp add: all_unknown_def)
next
  case (Cons item items)
  obtain category s where item: "item = (category, PStr s)"
    using Cons.prems(2) by (cases item) auto
  let ?u1 = "unknown @ filter (not_found e p) (split_on CHR '','' s)"
  let ?w0 = "w\<lparr>log := log w @ skip_notes e p (split_on CHR '','' s)\<rparr>"
  let ?w1 = "snd (assign ''Priority'' category (PTuple (resolved e p s)) ?w0)"
  have step: "crawl_category e item (unknown, w) = (None, (?u1, ?w1))"
    unfolding item by (rule crawl_category_result[OF Cons.prems(1) assms(1)])
  have unfold: "crawl_categories e (item # items) (unknown, w) = crawl_categories e items (?u1, ?w1)"
    by (simp add: step)
  have ready1: "crawl_ready p ?w1"
    using Cons.prems(1) by (intro crawl_ready_assign) (simp add: crawl_ready_log)
  have strs: "\<forall>item \<in> set items. \<exists>s. snd item = PStr s"
    using Cons.prems(2) by simp
  note IH = Cons.IH[OF ready1 strs, of ?u1]
  have pres: "map_of (sections ?w0) ''Priority'' \<noteq> None"
    using Cons.prems(1) by (simp add: crawl_ready_def)
  have head: "attr ?w1 ''Priority'' category = Inr (PTuple (resolved e p s))"
    using pres by (simp add: attr_assign)
  have other: "\<And>t. t \<noteq> category \<Longrightarrow> attr ?w1 ''Priority'' t = attr w ''Priority'' t"
    by (simp add: attr_assign attr_log_update)
  show ?case
    unfolding unfold
  proof (intro conjI)
    show "fst (crawl_categories e items (?u1, ?w1)) = None"
      using IH by simp
    show "fst (snd (crawl_categories e items (?u1, ?w1))) = unknown @ all_unknown e p (item # items)"
      using IH by (simp add: all_unknown_def item)
    show "crawl_ready p (snd (snd (crawl_categories e items (?u1, ?w1))))"
      using IH by simp
    show "\<forall>t. t \<notin> fst ` set (item # items) \<longrightarrow>
            attr (snd (snd (crawl_categories e items (?u1, ?w1)))) ''Priority'' t =
            attr w ''Priority'' t"
      using IH other by (simp add: item)
    show "distinct (map fst (item # items)) \<longrightarrow>
            (\<forall>t s'. (t, PStr s') \<in> set (item # items) \<longrightarrow>
               attr (snd (snd (crawl_categories e items (?u1, ?w1)))) ''Priority'' t =
               Inr (PTuple (resolved e p s')))"
    proof (intro impI allI)
      fix t s'
      assume d: "distinct (map fst (item # items))" and m: "(t, PStr s') \<in> set (item # items)"
      show "attr (snd (snd (crawl_categories e items (?u1, ?w1)))) ''Priority'' t =
               Inr (PTuple (resolved e p s'))"
      proof (cases "(t, PStr s') = item")
        case True
        then have ts: "t = category" "s' = s" using item by simp_all
        have "category \<notin> fst ` set items" using d item by simp
        then have "attr (snd (snd (crawl_categories e items (?u1, ?w1)))) ''Priority'' category =
            attr ?w1 ''Priority'' category"
          using IH by blast
        then show ?thesis using head ts by simp
      next
        case False
        then have "(t, PStr s') \<in> set items" using m by simp
        moreover have "distinct (map fst items)" using d by simp
        ultimately show ?thesis using IH by blast
      qed
    qed
  qed
qed

text \<open>
  Claim C3. Let the \<^verbatim>\<open>Priority\<close> section hold raw strings, let a string be configured as
  the local path, and let no import raise anything but module-not-found. Then provider
  resolution completes without raising, and every category key holds afterwards the tuple
  of \<^verbatim>\<open>web.\<close> plus name for exactly the names of its comma-separated string that load, in
  their original order; the names whose import finds no module are left out of the tuple
  and make up, in order, the unknown names that are reported. A tuple is never longer than
  the list of names it comes from.
\<close>

theorem import_crawlers_resolution:
  assumes "Config_getattr w ''Priority'' = Inr items"
    and "distinct (map fst items)"
    and "\<forall>item \<in> set items. \<exists>s. snd item = PStr s"
    and "attr w ''Crawler'' ''fc2fan_local_path'' = Inr (PStr p)"
    and "\<forall>n err. import_module e n \<noteq> ImportRaises err"
  shows "fst (import_crawlers e w) = None \<and>
         (\<forall>typ s. (typ, PStr s) \<in> set items \<longrightarrow>
            attr (snd (import_crawlers e w)) ''Priority'' typ = Inr (PTuple (resolved e p s)) \<and>
            resolved e p s = map (\<lambda>n. ''web.'' @ n) (filter (loads e p) (split_on CHR '','' s)) \<and>
            length (resolved e p s) \<le> length (split_on CHR '','' s)) \<and>
         fst (snd (crawl_categories e items ([], w))) = all_unknown e p items \<and>
         snd (import_crawlers e w) =
           report_unknown e (all_unknown e p items) (snd (snd (crawl_categories e items ([], w))))"
proof -
  have ready: "crawl_ready p w"
    using assms(1,4) by (auto simp: crawl_ready_def Config_getattr_def split: option.splits)
  note R = crawl_categories_result[OF assms(5) ready assms(3), of "[]"]
  obtain r u w' where loop: "crawl_categories e items ([], w) = (r, (u, w'))"
    by (cases "crawl_categories e items ([], w)") auto
  have r: "r = None" and u: "u = all_unknown e p items"
    using R loop by simp_all
  have run: "import_crawlers e w = (None, report_unknown e (all_unknown e p items) w')"
    using assms(1) by (simp add: import_crawlers_def evaluate_def loop r u)
  have each: "\<And>typ s. (typ, PStr s) \<in> set items \<Longrightarrow>
      attr w' ''Priority'' typ = Inr (PTuple (resolved e p s))"
    using R assms(2) loop by simp
  show ?thesis
    using each by (simp add: run loop u attr_report_unknown resolved_def)
qed

theorem import_crawlers_resolution_witness:
  "fst (import_crawlers sample_env sample) = None \<and>
   attr (snd (import_crawlers sample_env sample)) ''Priority'' ''actor'' =
     Inr (PTuple [''web.siteA'', ''web.siteC'']) \<and>
   attr (snd (import_crawlers sample_env sample)) ''Priority'' ''fc2'' =
     Inr (PTuple [''web.siteA'']) \<and>
   fst (snd (crawl_categories sample_env
     [(''actor'', PStr ''siteA,siteB,siteC''), (''fc2'', PStr ''fc2fan,siteA'')] ([], sample))) =
     [''siteB'']"
proof -
  let ?items = "[(''actor'', PStr ''siteA,siteB,siteC''), (''fc2'', PStr ''fc2fan,siteA'')]"
  have h1: "Config_getattr sample ''Priority'' = Inr ?items"
    by code_simp
  have h2: "distinct (map fst ?items)"
    by simp
  have h3: "\<forall>item \<in> set ?items. \<exists>s. snd item = PStr s"
    by simp
  have h4: "attr sample ''Crawler'' ''fc2fan_local_path'' = Inr (PStr [])"
    by code_simp
  have h5: "\<forall>n err. import_module sample_env n \<noteq> ImportRaises err"
    by (simp add: sample_env_def)
  have r1: "resolved sample_env [] ''siteA,siteB,siteC'' = [''web.siteA'', ''web.siteC'']"
    by code_simp
  have r2: "resolved sample_env [] ''fc2fan,siteA'' = [''web.siteA'']"
    by code_simp
  have u: "all_unknown sample_env [] ?items = [''siteB'']"
    by code_simp
  have m1: "(''actor'', PStr ''siteA,siteB,siteC'') \<in> set ?items"
    and m2: "(''fc2'', PStr ''fc2fan,siteA'') \<in> set ?items"
    by simp_all
  note T = import_crawlers_resolution[OF h1 h2 h3 h4 h5]
  have a: "fst (import_crawlers sample_env sample) = None"
    using T by (rule conjunct1)
  have b: "attr (snd (import_crawlers sample_env sample)) ''Priority'' ''actor'' =
      Inr (PTuple (resolved sample_env [] ''siteA,siteB,siteC''))"
    using T[THEN conjunct2, THEN conjunct1, rule_format, OF m1] by (rule conjunct1)
  have c: "attr (snd (import_crawlers sample_env sample)) ''Priority'' ''fc2'' =
      Inr (PTuple (resolved sample_env [] ''fc2fan,siteA''))"
    using T[THEN conjunct2, THEN conjunct1, rule_format, OF m2] by (rule conjunct1)
  have d: "fst (snd (crawl_categories sample_env ?items ([], sample))) =
      all_unknown sample_env [] ?items"
    using T[THEN conjunct2, THEN conjunct2] by (rule conjunct1)
  note b' = b[unfolded r1] and c' = c[unfolded r2] and d' = d[unfolded u]
  show ?thesis
    by (intro conjI) (rule a b' c' d')+
qed

subsection \<open>Free-proxy URL sanitizing\<close>






















lemma reached_head: "reached (k # ks) k w"
  by (simp add: reached_def)















subsection \<open>Fields a pass leaves alone\<close>

lemma attr_then_run:
  assumes "\<And>v. attr (snd (f v)) sec key = attr v sec key"
    and "\<And>v. attr (snd (g v)) sec key = attr v sec key"
  shows "attr (snd (then_run f g w)) sec key = attr w sec key"
  using assms by (simp add: then_run_split)

lemma attr_evaluate:
  assumes "\<And>x v. attr (snd (k x v)) sec key = attr v sec key"
  shows "attr (snd (evaluate ex k w)) sec key = attr w sec key"
  using assms by (simp add: evaluate_def split: sum.splits)

lemma attr_assign_other:
  "sec' \<noteq> sec \<or> key' \<noteq> key \<Longrightarrow> attr (snd (assign sec key v w)) sec' key' = attr w sec' key'"
  by (auto simp: attr_assign)

lemma attr_same_sections: "sections a = sections b \<Longrightarrow> attr a sec key = attr b sec key"
  by (simp add: attr_def Config_getattr_def)

lemma attr_norm_tuples_other:
  assumes "sec \<noteq> ''File'' \<and> sec \<noteq> ''Crawler''"
  shows "attr (snd (norm_tuples w)) sec key = attr w sec key"
  unfolding norm_tuples_def norm_media_ext_def norm_ignore_folder_def norm_required_keys_def
  using assms by (intro attr_then_run attr_evaluate attr_assign_other) simp_all

lemma attr_norm_boolean_other:
  assumes "(sec, key) \<notin> set boolean_items"
  shows "attr (snd (norm_boolean w)) sec key = attr w sec key"
  unfolding norm_boolean_def
proof (rule attr_for_each)
  fix x v assume "x \<in> set boolean_items"
  then have "(sec, key) \<noteq> x" using assms by auto
  then show "attr (snd (norm_boolean_item x v)) sec key = attr v sec key"
    by (rule norm_boolean_item_frame)
qed

lemma attr_validate_proxy_other:
  assumes "sec \<noteq> ''Network'' \<or> key \<noteq> ''proxy''"
  shows "attr (snd (validate_proxy w)) sec key = attr w sec key"
  unfolding validate_proxy_def
proof (rule attr_evaluate)
  fix x v
  show "attr (snd (if x \<noteq> [] then
            (if re_match False proxy_pattern x
             then assign ''Network'' ''proxy'' (PDict [(''http'', x), (''https'', x)]) v
             else assign ''Network'' ''proxy'' (PDict []) (logger WARNING InvalidProxyFormat v))
          else assign ''Network'' ''proxy'' (PDict []) v)) sec key = attr v sec key"
    using assms by (auto simp: attr_assign attr_logger)
qed

lemma sections_try_crawler:
  "sections (snd (snd (snd (try_crawler e name st)))) = sections (snd (snd st))"
  by (cases st)
     (auto simp: try_crawler_def sections_logger split: sum.splits bool.splits import_outcome.splits)

lemma sections_try_crawlers:
  "sections (snd (snd (snd (try_crawlers e names st)))) = sections (snd (snd st))"
proof (induction names arbitrary: st)
  case Nil
  then show ?case by simp
next
  case (Cons name names)
  show ?case
    using Cons.IH[of "snd (try_crawler e name st)"] sections_try_crawler[of e name st]
    by (cases "try_crawler e name st") (auto split: option.splits)
qed

lemma attr_crawl_category:
  assumes "sec \<noteq> ''Priority''"
  shows "attr (snd (snd (crawl_category e item st))) sec key = attr (snd st) sec key"
proof (cases st)
  case (Pair unknown w)
  show ?thesis
  proof (cases "str_split CHR '','' (snd item)")
    case (Inl err)
    then show ?thesis using Pair by (simp add: crawl_category_def)
  next
    case (Inr mods)
    obtain r valid unknown' w' where t: "try_crawlers e mods ([], unknown, w) = (r, valid, unknown', w')"
      by (cases "try_crawlers e mods ([], unknown, w)") auto
    have "sections w' = sections w"
      using sections_try_crawlers[of e mods "([], unknown, w)"] t by simp
    then have same: "attr w' sec key = attr w sec key" by (rule attr_same_sections)
    show ?thesis
      using Pair Inr t same assms
      by (cases r) (simp_all add: crawl_category_def case_prod_beta attr_assign_other)
  qed
qed

lemma attr_crawl_categories:
  assumes "sec \<noteq> ''Priority''"
  shows "attr (snd (snd (crawl_categories e items st))) sec key = attr (snd st) sec key"
proof (induction items arbitrary: st)
  case Nil
  then show ?case by simp
next
  case (Cons item items)
  show ?case
    using Cons.IH[of "snd (crawl_category e item st)"] attr_crawl_category[OF assms, of e item st key]
    by (cases "crawl_category e item st") (auto split: option.splits)
qed

lemma attr_import_crawlers_other:
  assumes "sec \<noteq> ''Priority''"
  shows "attr (snd (import_crawlers e w)) sec key = attr w sec key"
  unfolding import_crawlers_def
proof (rule attr_evaluate)
  fix items v
  obtain r u v' where c: "crawl_categories e items ([], v) = (r, u, v')"
    by (cases "crawl_categories e items ([], v)") auto
  have "attr v' sec key = attr v sec key"
    using attr_crawl_categories[OF assms, of e items "([], v)" key] c by simp
  then show "attr (snd (case crawl_categories e items ([], v) of
            (Some err, (unknown_mods, w')) \<Rightarrow> (Some err, w')
          | (None, (unknown_mods, w')) \<Rightarrow> (None, report_unknown e unknown_mods w'))) sec key =
        attr v sec key"
    by (cases r) (simp_all add: c attr_report_unknown)
qed

lemma attr_convert_naming_rule_other:
  assumes "sec \<noteq> ''NamingRule''"
  shows "attr (snd (convert_naming_rule e w)) sec key = attr w sec key"
  unfolding convert_naming_rule_def
  using assms by (intro attr_evaluate attr_then_run attr_assign_other) simp_all

lemma attr_set_option_other:
  assumes "sec \<noteq> section"
  shows "attr (snd (set_option section k v w)) sec key = attr w sec key"
  using assms
  by (auto simp: set_option_def attr_def Config_getattr_def rbind_def update_conv'
      split: sum.splits option.splits)

lemma attr_check_proxy_free_url_other:
  assumes "sec \<noteq> ''ProxyFree''"
  shows "attr (snd (check_proxy_free_url w)) sec key = attr w sec key"
  unfolding check_proxy_free_url_def
proof (rule attr_evaluate, rule attr_for_each)
  fix x v
  show "attr (snd (check_site ''ProxyFree'' x v)) sec key = attr v sec key"
    unfolding check_site_def proxy_setitem_def
    using assms by (intro attr_evaluate attr_set_option_other)
qed

subsection \<open>Running the pipeline twice\<close>

lemma norm_int_success:
  assumes "fst (norm_int w) = None"
  shows "\<exists>n. attr (snd (norm_int w)) ''Network'' ''retry'' = Inr (PInt n)"
proof -
  let ?A = "evaluate (\<lambda>w. getint w ''Network'' ''retry'') (\<lambda>n. assign ''Network'' ''retry'' (PInt n))"
  let ?B = "evaluate (\<lambda>w. getint w ''Network'' ''timeout'') (\<lambda>n. assign ''Network'' ''timeout'' (PInt n))"
  have split: "norm_int w = (if fst (?A w) = None then ?B (snd (?A w)) else ?A w)"
    by (simp add: norm_int_def then_run_split)
  have okA: "fst (?A w) = None"
    using assms split by (cases "fst (?A w) = None") auto
  then obtain n where n: "getint w ''Network'' ''retry'' = Inr n"
    by (cases "getint w ''Network'' ''retry''") (auto simp: evaluate_def)
  have A: "?A w = assign ''Network'' ''retry'' (PInt n) w"
    using n by (simp add: evaluate_def)
  have "map_of (sections w) ''Network'' \<noteq> None"
    using okA by (simp add: A fst_assign)
  then have a: "attr (snd (?A w)) ''Network'' ''retry'' = Inr (PInt n)"
    by (simp add: A attr_assign)
  have "attr (snd (?B (snd (?A w)))) ''Network'' ''retry'' = attr (snd (?A w)) ''Network'' ''retry''"
    by (rule attr_evaluate_assign_other) simp
  then have "attr (snd (norm_int w)) ''Network'' ''retry'' = Inr (PInt n)"
    using okA a by (simp add: split)
  then show ?thesis by blast
qed

lemma optionxform_retry: "optionxform ''retry'' = ''retry''"
  by (simp add: optionxform_def lower_def lower_char_def is_upper_def code_def)

lemma getint_of_int:
  assumes "attr w ''Network'' ''retry'' = Inr (PInt n)"
  shows "getint w ''Network'' ''retry'' = Inl (if n \<noteq> 0 then AttributeError else ValueError)"
proof -
  obtain d where d: "map_of (sections w) ''Network'' = Some d" and v: "DotDict_getattr d ''retry'' = PInt n"
    using assms by (auto simp: attr_Inr_iff)
  have m: "map_of d ''retry'' = Some (PInt n)"
    using v by (auto simp: DotDict_getattr_def split: option.splits)
  have vis: "visible w ''Network'' ''retry'' = Some (PInt n)"
    using d m by (simp add: visible_def)
  show ?thesis
    by (simp add: getint_def get_def unify_values_visible[OF d] optionxform_retry vis rbind_def
        before_get_def py_int_def parse_int_def strip_def Let_def)
qed

lemma norm_int_of_int:
  assumes "attr w ''Network'' ''retry'' = Inr (PInt n)"
  shows "norm_int w = (Some (if n \<noteq> 0 then AttributeError else ValueError), w)"
  by (simp add: norm_int_def then_run_def evaluate_def getint_of_int[OF assms])

lemma attr_after_norm_int:
  "attr (snd (then_run norm_tuples
       (then_run norm_boolean
       (then_run validate_proxy
       (then_run (import_crawlers e)
       (then_run (convert_naming_rule e) check_proxy_free_url)))) w)) ''Network'' ''retry'' =
   attr w ''Network'' ''retry''"
  by (intro attr_then_run attr_norm_tuples_other attr_norm_boolean_other attr_validate_proxy_other
      attr_import_crawlers_other attr_convert_naming_rule_other attr_check_proxy_free_url_other)
     (simp_all add: boolean_items_def)

text \<open>
  Claim C6, amended. On a Config that the pipeline has validated, a second run raises at
  the first statement of integer coercion, before any field is written:
  \<^verbatim>\<open>Network.retry\<close> is already an integer \<open>n\<close>, which the parser's interpolation cannot
  scan (\<^verbatim>\<open>AttributeError\<close>; for \<open>n = 0\<close> the empty result fails in \<^verbatim>\<open>int\<close> with
  \<^verbatim>\<open>ValueError\<close>). So the second run changes no field, and does not complete.
\<close>

theorem validate_twice:
  assumes "validate e w = (None, w')"
  shows "\<exists>n. attr w' ''Network'' ''retry'' = Inr (PInt n) \<and>
             validate e' w' = (Some (if n \<noteq> 0 then AttributeError else ValueError), w')"
proof -
  let ?rest = "\<lambda>e. then_run norm_tuples
       (then_run norm_boolean
       (then_run validate_proxy
       (then_run (import_crawlers e)
       (then_run (convert_naming_rule e) check_proxy_free_url))))"
  have split: "\<And>e v. validate e v = (if fst (norm_int v) = None then ?rest e (snd (norm_int v)) else norm_int v)"
    by (simp add: validate_def then_run_split[of norm_int])
  have ok: "fst (norm_int w) = None"
    using assms split[of e w] by (cases "fst (norm_int w) = None") auto
  then obtain n where n: "attr (snd (norm_int w)) ''Network'' ''retry'' = Inr (PInt n)"
    using norm_int_success by blast
  have w': "w' = snd (?rest e (snd (norm_int w)))"
    using assms ok by (simp add: split[of e w])
  have retry: "attr w' ''Network'' ''retry'' = Inr (PInt n)"
    unfolding w' using n by (simp only: attr_after_norm_int)
  have again: "norm_int w' = (Some (if n \<noteq> 0 then AttributeError else ValueError), w')"
    using retry by (rule norm_int_of_int)
  have "validate e' w' = (Some (if n \<noteq> 0 then AttributeError else ValueError), w')"
    by (simp add: split[of e' w'] again)
  then show ?thesis using retry by blast
qed

theorem validate_twice_witness:
  "fst (validate sample_env sample) = None \<and>
   validate sample_env (snd (validate sample_env sample)) =
     (Some AttributeError, snd (validate sample_env sample))"
proof -
  have ok: "fst (validate sample_env sample) = None"
    by code_simp
  then have h: "validate sample_env sample = (None, snd (validate sample_env sample))"
    by (metis prod.collapse)
  have r: "attr (snd (validate sample_env sample)) ''Network'' ''retry'' = Inr (PInt 3)"
    by code_simp
  obtain n where n: "attr (snd (validate sample_env sample)) ''Network'' ''retry'' = Inr (PInt n)"
    and v: "validate sample_env (snd (validate sample_env sample)) =
        (Some (if n \<noteq> 0 then AttributeError else ValueError), snd (validate sample_env sample))"
    using validate_twice[OF h, of sample_env] by blast
  have "n = 3" using n r by simp
  then show ?thesis using ok v by simp
qed

text \<open>
  Claim C6 as stated, that a second run does not crash, fails on the sample configuration:
  the first run completes and the second raises \<^verbatim>\<open>AttributeError\<close>.
\<close>

theorem validate_twice_counterexample:
  "fst (validate sample_env sample) = None \<and>
   fst (validate sample_env (snd (validate sample_env sample))) = Some AttributeError"
  by code_simp

end
